theory Spec2Isabelle
  imports Main "HOL-Library.AList"
begin

section \<open>The Blackboard singleton: data model\<close>

text \<open>
  The header declares a class \<^verbatim>\<open>Blackboard\<close> whose only instance hangs off the static
  pointer \<^verbatim>\<open>m_Instance\<close>, and a class template \<^verbatim>\<open>Value_Map<T>\<close> with four hash maps
  keyed by \<^verbatim>\<open>std::string\<close>. The model is sequential: the recursive mutex
  \<^verbatim>\<open>m_DataLock\<close> is left out, every operation is a function from the state before the
  call to the state after it.

  \<^item> A key is a \<^typ>\<open>string\<close>.
  \<^item> A bucket identity is the \<^verbatim>\<open>size_t\<close> that \<^verbatim>\<open>typeid(T).hash_code()\<close> returns.
  \<^item> A callback is a plain function pointer; only its address is stored. The null
    pointer is the address \<open>0\<close>.
  \<^item> The values of all buckets live in one universe \<open>'v\<close>. A template argument
    \<^verbatim>\<open>T\<close> is known to the code through two things only: its hash code and the value
    \<^verbatim>\<open>T()\<close> that \<^verbatim>\<open>operator[]\<close> inserts for a missing key. Both are fields of the
    descriptor \<open>cpp_type\<close>, which every templated operation takes as its first argument.
\<close>

type_synonym type_id = nat

type_synonym fn_ptr = nat

definition nullptr :: fn_ptr where
  "nullptr = 0"

record 'v cpp_type =
  hash_code :: type_id
  default_value :: 'v

record 'v Value_Map =
  m_Values :: "string \<rightharpoonup> 'v"
  m_KeyEvents :: "string \<rightharpoonup> fn_ptr"
  m_ValueEvents :: "string \<rightharpoonup> fn_ptr"
  m_PairEvents :: "string \<rightharpoonup> fn_ptr"

text \<open>
  \<^verbatim>\<open>m_DataStorage\<close> is iterated by three operations, so it is an association list: the
  order of the list stands for the unspecified iteration order of the hash map. A bucket
  is owned through a pointer that nothing else holds, so the list stores the bucket
  itself.
\<close>

record 'v Blackboard =
  m_DataStorage :: "(type_id \<times> 'v Value_Map) list"

text \<open>
  What can go wrong in the source and has no value to return:
  \<^item> \<open>Assertion_Failed\<close>: \<^verbatim>\<open>assert(m_Instance)\<close> on a null singleton;
  \<^item> \<open>Erase_End\<close>: \<^verbatim>\<open>erase\<close> called with a past-the-end iterator;
  \<^item> \<open>Invalid_Bucket\<close>: the bucket pointer \<^verbatim>\<open>map\<close> does not point to a bucket of the
    registry (a null or dangling pointer).
\<close>

datatype error = Assertion_Failed | Erase_End | Invalid_Bucket

text \<open>
  One call through a stored function pointer, with the arguments it received. The three
  constructors are the three callback shapes \<^verbatim>\<open>EventKeyCallback\<close>,
  \<^verbatim>\<open>EventValueCallback\<close> and \<^verbatim>\<open>EventKeyValueCallback\<close>.
\<close>

datatype 'v invocation =
  Key_Event fn_ptr string
| Value_Event fn_ptr 'v
| Pair_Event fn_ptr string 'v

text \<open>
  The code behind the function pointers belongs to the caller, not to the header. It
  runs while \<^verbatim>\<open>write\<close> holds the recursive lock, so it may call back into the registry;
  the model takes its effect on the registry as a parameter of \<^verbatim>\<open>write\<close>. Callbacks are
  assumed to return, and not to destroy the singleton.
\<close>

type_synonym 'v callbacks = "'v invocation \<Rightarrow> 'v Blackboard \<Rightarrow> 'v Blackboard"

section \<open>Value\_Map\<close>

definition new_Value_Map :: "'v Value_Map" where
  "new_Value_Map =
     \<lparr>m_Values = Map.empty, m_KeyEvents = Map.empty,
      m_ValueEvents = Map.empty, m_PairEvents = Map.empty\<rparr>"

definition Value_Map_wipeKey :: "string \<Rightarrow> 'v Value_Map \<Rightarrow> 'v Value_Map" where
  "Value_Map_wipeKey p_Key m = m\<lparr>m_Values := (m_Values m)(p_Key := None)\<rparr>"

definition Value_Map_wipeAll :: "'v Value_Map \<Rightarrow> 'v Value_Map" where
  "Value_Map_wipeAll m = m\<lparr>m_Values := Map.empty\<rparr>"

text \<open>
  An iterator of one of the hash maps is modelled by the key it points to, and
  \<^verbatim>\<open>end()\<close> by \<open>None\<close>. \<^verbatim>\<open>Value_Map::unsubscribe\<close> compares \<^verbatim>\<open>key\<close>, an iterator of
  \<^verbatim>\<open>m_KeyEvents\<close>, with \<^verbatim>\<open>m_ValueEvents.end()\<close> and with \<^verbatim>\<open>m_PairEvents.end()\<close>. The
  language gives a comparison across containers no meaning (and across the iterator types
  of maps with different callback types not even a type); the model reads it as the test
  it is for \<^verbatim>\<open>m_KeyEvents\<close> itself, whether \<^verbatim>\<open>key\<close> is past the end, the past-the-end
  iterators of all maps being the same value as in the hash tables whose \<^verbatim>\<open>end()\<close> is a
  null node. \<^verbatim>\<open>erase\<close> needs an iterator that points to an entry; handed \<^verbatim>\<open>end()\<close> it
  has no defined result, which is the error \<open>Erase_End\<close>.
\<close>

type_synonym iterator = "string option"

definition find_it :: "(string \<rightharpoonup> 'a) \<Rightarrow> string \<Rightarrow> iterator" where
  "find_it m k = (if m k = None then None else Some k)"

definition erase_it :: "iterator \<Rightarrow> (string \<rightharpoonup> 'a) \<Rightarrow> error + (string \<rightharpoonup> 'a)" where
  "erase_it it m = (case it of None \<Rightarrow> Inl Erase_End | Some k \<Rightarrow> Inr (m(k := None)))"

definition Value_Map_unsubscribe :: "string \<Rightarrow> 'v Value_Map \<Rightarrow> error + 'v Value_Map" where
  "Value_Map_unsubscribe p_Key m =
     (let key = find_it (m_KeyEvents m) p_Key;
          val = find_it (m_ValueEvents m) p_Key;
          pair = find_it (m_PairEvents m) p_Key
      in case (if key \<noteq> None then erase_it key (m_KeyEvents m) else Inr (m_KeyEvents m)) of
           Inl e \<Rightarrow> Inl e
         | Inr ke \<Rightarrow>
        (case (if key \<noteq> None then erase_it val (m_ValueEvents m) else Inr (m_ValueEvents m)) of
           Inl e \<Rightarrow> Inl e
         | Inr ve \<Rightarrow>
        (case (if key \<noteq> None then erase_it pair (m_PairEvents m) else Inr (m_PairEvents m)) of
           Inl e \<Rightarrow> Inl e
         | Inr pe \<Rightarrow>
             Inr (m\<lparr>m_KeyEvents := ke, m_ValueEvents := ve, m_PairEvents := pe\<rparr>))))"

definition Value_Map_clearAllEvents :: "'v Value_Map \<Rightarrow> 'v Value_Map" where
  "Value_Map_clearAllEvents m =
     m\<lparr>m_KeyEvents := Map.empty, m_ValueEvents := Map.empty, m_PairEvents := Map.empty\<rparr>"

text \<open>
  \<^verbatim>\<open>m_Values[p_Key]\<close> used as a value: \<^verbatim>\<open>operator[]\<close> returns the stored value, and for
  a missing key it first inserts a value-initialised \<^verbatim>\<open>T\<close>.
\<close>

definition index_Values :: "'v cpp_type \<Rightarrow> string \<Rightarrow> 'v Value_Map \<Rightarrow> 'v \<times> 'v Value_Map" where
  "index_Values T p_Key m =
     (case m_Values m p_Key of
        Some v \<Rightarrow> (v, m)
      | None \<Rightarrow> (default_value T, m\<lparr>m_Values := (m_Values m)(p_Key \<mapsto> default_value T)\<rparr>))"

section \<open>Blackboard\<close>

definition templateToID :: "'v cpp_type \<Rightarrow> type_id" where
  "templateToID T = hash_code T"

definition supportType :: "'v cpp_type \<Rightarrow> 'v Blackboard \<Rightarrow> type_id \<times> 'v Blackboard" where
  "supportType T inst =
     (let key = templateToID T
      in if map_of (m_DataStorage inst) key = None
         then (key, inst\<lparr>m_DataStorage := AList.update key new_Value_Map (m_DataStorage inst)\<rparr>)
         else (key, inst))"

text \<open>
  \<open>bucket_at\<close> follows the pointer stored under a bucket identity; \<open>set_bucket\<close> is a
  store through that pointer.
\<close>

definition bucket_at :: "type_id \<Rightarrow> 'v Blackboard \<Rightarrow> 'v Value_Map option" where
  "bucket_at key inst = map_of (m_DataStorage inst) key"

definition set_bucket :: "type_id \<Rightarrow> 'v Value_Map \<Rightarrow> 'v Blackboard \<Rightarrow> 'v Blackboard" where
  "set_bucket key m inst = inst\<lparr>m_DataStorage := AList.update key m (m_DataStorage inst)\<rparr>"

text \<open>
  The three \<^verbatim>\<open>if\<close> statements at the end of \<^verbatim>\<open>write\<close>. Each looks its map up in the
  bucket as the callbacks before it left it, and calls the stored pointer when the key
  is there and the pointer is not null. The value handed to a callback is
  \<^verbatim>\<open>map->m_Values[p_Key]\<close>, read at that moment.
\<close>

definition raise_key_event ::
  "'v callbacks \<Rightarrow> type_id \<Rightarrow> string \<Rightarrow> 'v Blackboard \<times> 'v invocation list
     \<Rightarrow> error + 'v Blackboard \<times> 'v invocation list" where
  "raise_key_event env key p_Key st =
     (case st of (inst, calls) \<Rightarrow>
      (case bucket_at key inst of
         None \<Rightarrow> Inl Invalid_Bucket
       | Some m \<Rightarrow>
          (case m_KeyEvents m p_Key of
             None \<Rightarrow> Inr (inst, calls)
           | Some f \<Rightarrow>
               if f \<noteq> nullptr
               then Inr (env (Key_Event f p_Key) inst, calls @ [Key_Event f p_Key])
               else Inr (inst, calls))))"

definition raise_value_event ::
  "'v callbacks \<Rightarrow> 'v cpp_type \<Rightarrow> type_id \<Rightarrow> string \<Rightarrow> 'v Blackboard \<times> 'v invocation list
     \<Rightarrow> error + 'v Blackboard \<times> 'v invocation list" where
  "raise_value_event env T key p_Key st =
     (case st of (inst, calls) \<Rightarrow>
      (case bucket_at key inst of
         None \<Rightarrow> Inl Invalid_Bucket
       | Some m \<Rightarrow>
          (case m_ValueEvents m p_Key of
             None \<Rightarrow> Inr (inst, calls)
           | Some f \<Rightarrow>
               if f \<noteq> nullptr
               then (case index_Values T p_Key m of (v, m') \<Rightarrow>
                       Inr (env (Value_Event f v) (set_bucket key m' inst),
                            calls @ [Value_Event f v]))
               else Inr (inst, calls))))"

definition raise_pair_event ::
  "'v callbacks \<Rightarrow> 'v cpp_type \<Rightarrow> type_id \<Rightarrow> string \<Rightarrow> 'v Blackboard \<times> 'v invocation list
     \<Rightarrow> error + 'v Blackboard \<times> 'v invocation list" where
  "raise_pair_event env T key p_Key st =
     (case st of (inst, calls) \<Rightarrow>
      (case bucket_at key inst of
         None \<Rightarrow> Inl Invalid_Bucket
       | Some m \<Rightarrow>
          (case m_PairEvents m p_Key of
             None \<Rightarrow> Inr (inst, calls)
           | Some f \<Rightarrow>
               if f \<noteq> nullptr
               then (case index_Values T p_Key m of (v, m') \<Rightarrow>
                       Inr (env (Pair_Event f p_Key v) (set_bucket key m' inst),
                            calls @ [Pair_Event f p_Key v]))
               else Inr (inst, calls))))"

definition and_then :: "error + 'a \<Rightarrow> ('a \<Rightarrow> error + 'b) \<Rightarrow> error + 'b" where
  "and_then r f = (case r of Inl e \<Rightarrow> Inl e | Inr x \<Rightarrow> f x)"

text \<open>
  \<^verbatim>\<open>write<T>(p_Key, p_Value, p_RaiseCallbacks)\<close>, named \<open>Blackboard_write\<close> here
  because \<open>write\<close> is a command of the proof language. The result is the registry after the
  call together with the calls \<^verbatim>\<open>write\<close> itself made through function pointers, in the
  order it made them.
\<close>

definition Blackboard_write ::
  "'v callbacks \<Rightarrow> 'v cpp_type \<Rightarrow> string \<Rightarrow> 'v \<Rightarrow> bool \<Rightarrow> 'v Blackboard option
     \<Rightarrow> error + 'v Blackboard \<times> 'v invocation list" where
  "Blackboard_write env T p_Key p_Value p_RaiseCallbacks m_Instance =
     (case m_Instance of
        None \<Rightarrow> Inl Assertion_Failed
      | Some inst0 \<Rightarrow>
         (case supportType T inst0 of (key, inst) \<Rightarrow>
          (case bucket_at key inst of
             None \<Rightarrow> Inl Invalid_Bucket
           | Some m \<Rightarrow>
              (let stored = set_bucket key (m\<lparr>m_Values := (m_Values m)(p_Key \<mapsto> p_Value)\<rparr>) inst
               in if p_RaiseCallbacks
                  then and_then (raise_key_event env key p_Key (stored, []))
                        (\<lambda>st1. and_then (raise_value_event env T key p_Key st1)
                          (raise_pair_event env T key p_Key))
                  else Inr (stored, [])))))"

text \<open>
  \<^verbatim>\<open>read<T>(p_Key)\<close> returns \<^verbatim>\<open>map->m_Values[p_Key]\<close>: the value read and the registry
  after the call, which holds the bucket of \<^verbatim>\<open>T\<close> and, for a key that was missing, the
  inserted default.
\<close>

definition read ::
  "'v cpp_type \<Rightarrow> string \<Rightarrow> 'v Blackboard option \<Rightarrow> error + 'v \<times> 'v Blackboard" where
  "read T p_Key m_Instance =
     (case m_Instance of
        None \<Rightarrow> Inl Assertion_Failed
      | Some inst0 \<Rightarrow>
         (case supportType T inst0 of (key, inst) \<Rightarrow>
          (case bucket_at key inst of
             None \<Rightarrow> Inl Invalid_Bucket
           | Some m \<Rightarrow>
              (case index_Values T p_Key m of (v, m') \<Rightarrow> Inr (v, set_bucket key m' inst)))))"

text \<open>
  \<^verbatim>\<open>wipeTypeKey<T>(p_Key)\<close> has no definition here. Its body calls
  \<^verbatim>\<open>supportType<T>()\<close> like its siblings, but then looks the bucket up with
  \<^verbatim>\<open>m_Instance->m_DataStorage[p_Key]\<close>: the map is keyed by \<^verbatim>\<open>size_t\<close>, \<^verbatim>\<open>p_Key\<close> is a
  \<^verbatim>\<open>std::string\<close>, and there is no conversion from one to the other, so the template has
  no instance and the operation no behaviour. The function it is written to call on the
  bucket, \<^verbatim>\<open>Value_Map::wipeKey\<close>, is \<open>Value_Map_wipeKey\<close> above.
\<close>

text \<open>The three overloads of \<^verbatim>\<open>subscribe<T>\<close>, one per callback shape.\<close>

definition subscribe_key ::
  "'v cpp_type \<Rightarrow> string \<Rightarrow> fn_ptr \<Rightarrow> 'v Blackboard option \<Rightarrow> error + 'v Blackboard" where
  "subscribe_key T p_Key pCb m_Instance =
     (case m_Instance of
        None \<Rightarrow> Inl Assertion_Failed
      | Some inst0 \<Rightarrow>
         (case supportType T inst0 of (key, inst) \<Rightarrow>
          (case bucket_at key inst of
             None \<Rightarrow> Inl Invalid_Bucket
           | Some m \<Rightarrow>
               Inr (set_bucket key (m\<lparr>m_KeyEvents := (m_KeyEvents m)(p_Key \<mapsto> pCb)\<rparr>) inst))))"

definition subscribe_value ::
  "'v cpp_type \<Rightarrow> string \<Rightarrow> fn_ptr \<Rightarrow> 'v Blackboard option \<Rightarrow> error + 'v Blackboard" where
  "subscribe_value T p_Key pCb m_Instance =
     (case m_Instance of
        None \<Rightarrow> Inl Assertion_Failed
      | Some inst0 \<Rightarrow>
         (case supportType T inst0 of (key, inst) \<Rightarrow>
          (case bucket_at key inst of
             None \<Rightarrow> Inl Invalid_Bucket
           | Some m \<Rightarrow>
               Inr (set_bucket key (m\<lparr>m_ValueEvents := (m_ValueEvents m)(p_Key \<mapsto> pCb)\<rparr>) inst))))"

definition subscribe_pair ::
  "'v cpp_type \<Rightarrow> string \<Rightarrow> fn_ptr \<Rightarrow> 'v Blackboard option \<Rightarrow> error + 'v Blackboard" where
  "subscribe_pair T p_Key pCb m_Instance =
     (case m_Instance of
        None \<Rightarrow> Inl Assertion_Failed
      | Some inst0 \<Rightarrow>
         (case supportType T inst0 of (key, inst) \<Rightarrow>
          (case bucket_at key inst of
             None \<Rightarrow> Inl Invalid_Bucket
           | Some m \<Rightarrow>
               Inr (set_bucket key (m\<lparr>m_PairEvents := (m_PairEvents m)(p_Key \<mapsto> pCb)\<rparr>) inst))))"

definition unsubscribe ::
  "'v cpp_type \<Rightarrow> string \<Rightarrow> 'v Blackboard option \<Rightarrow> error + 'v Blackboard" where
  "unsubscribe T p_Key m_Instance =
     (case m_Instance of
        None \<Rightarrow> Inl Assertion_Failed
      | Some inst0 \<Rightarrow>
         (case supportType T inst0 of (key, inst) \<Rightarrow>
          (case bucket_at key inst of
             None \<Rightarrow> Inl Invalid_Bucket
           | Some m \<Rightarrow>
              (case Value_Map_unsubscribe p_Key m of
                 Inl e \<Rightarrow> Inl e
               | Inr m' \<Rightarrow> Inr (set_bucket key m' inst)))))"

text \<open>
  The untyped operations loop over \<^verbatim>\<open>m_DataStorage\<close> and call a virtual function of
  \<^verbatim>\<open>Base_Map\<close> on every bucket.
\<close>

definition wipeKey :: "string \<Rightarrow> 'v Blackboard option \<Rightarrow> error + 'v Blackboard" where
  "wipeKey p_Key m_Instance =
     (case m_Instance of
        None \<Rightarrow> Inl Assertion_Failed
      | Some inst \<Rightarrow>
          Inr (inst\<lparr>m_DataStorage :=
                 map (\<lambda>pair. (fst pair, Value_Map_wipeKey p_Key (snd pair))) (m_DataStorage inst)\<rparr>))"

definition wipeBoard :: "bool \<Rightarrow> 'v Blackboard option \<Rightarrow> error + 'v Blackboard" where
  "wipeBoard p_WipeCallbacks m_Instance =
     (case m_Instance of
        None \<Rightarrow> Inl Assertion_Failed
      | Some inst \<Rightarrow>
          Inr (inst\<lparr>m_DataStorage :=
                 map (\<lambda>pair.
                        (fst pair,
                         if p_WipeCallbacks
                         then Value_Map_clearAllEvents (Value_Map_wipeAll (snd pair))
                         else Value_Map_wipeAll (snd pair)))
                   (m_DataStorage inst)\<rparr>))"

fun unsubscribe_each ::
  "string \<Rightarrow> (type_id \<times> 'v Value_Map) list \<Rightarrow> error + (type_id \<times> 'v Value_Map) list" where
  "unsubscribe_each p_Key [] = Inr []"
| "unsubscribe_each p_Key (pair # rest) =
     (case Value_Map_unsubscribe p_Key (snd pair) of
        Inl e \<Rightarrow> Inl e
      | Inr m' \<Rightarrow>
         (case unsubscribe_each p_Key rest of
            Inl e \<Rightarrow> Inl e
          | Inr rest' \<Rightarrow> Inr ((fst pair, m') # rest')))"

definition unsubscribeAll :: "string \<Rightarrow> 'v Blackboard option \<Rightarrow> error + 'v Blackboard" where
  "unsubscribeAll p_Key m_Instance =
     (case m_Instance of
        None \<Rightarrow> Inl Assertion_Failed
      | Some inst \<Rightarrow>
         (case unsubscribe_each p_Key (m_DataStorage inst) of
            Inl e \<Rightarrow> Inl e
          | Inr storage \<Rightarrow> Inr (inst\<lparr>m_DataStorage := storage\<rparr>)))"

text \<open>
  \<^verbatim>\<open>isReady\<close>, \<^verbatim>\<open>destroy\<close> and \<^verbatim>\<open>create\<close> act on the static pointer. \<^verbatim>\<open>destroy\<close>
  deletes the buckets and the instance; \<^verbatim>\<open>create\<close> destroys an instance that is
  there and allocates an empty one (an allocation that fails throws, which is not
  modelled, so the result is always true).
\<close>

definition isReady :: "'v Blackboard option \<Rightarrow> bool" where
  "isReady m_Instance = (m_Instance \<noteq> None)"

definition destroy :: "'v Blackboard option \<Rightarrow> 'v Blackboard option" where
  "destroy m_Instance = (if m_Instance \<noteq> None then None else m_Instance)"

definition create :: "'v Blackboard option \<Rightarrow> bool \<times> 'v Blackboard option" where
  "create m_Instance =
     (let destroyed = (if isReady m_Instance then destroy m_Instance else m_Instance);
          created = Some \<lparr>m_DataStorage = []\<rparr>
      in (created \<noteq> None, created))"

section \<open>Observations and example data\<close>

text \<open>
  What a caller can find out about a registry: the value stored for a key in the bucket
  of a type, and the pointer in each of the three callback slots. A bucket that does not
  exist holds nothing. \<open>bucket_or_new\<close> is the bucket \<^verbatim>\<open>supportType\<close> leaves behind.
\<close>

definition bucket_or_new :: "type_id \<Rightarrow> 'v Blackboard \<Rightarrow> 'v Value_Map" where
  "bucket_or_new key inst = (case bucket_at key inst of None \<Rightarrow> new_Value_Map | Some m \<Rightarrow> m)"

definition value_at :: "type_id \<Rightarrow> string \<Rightarrow> 'v Blackboard \<Rightarrow> 'v option" where
  "value_at key k inst = (case bucket_at key inst of None \<Rightarrow> None | Some m \<Rightarrow> m_Values m k)"

definition key_event_at :: "type_id \<Rightarrow> string \<Rightarrow> 'v Blackboard \<Rightarrow> fn_ptr option" where
  "key_event_at key k inst =
     (case bucket_at key inst of None \<Rightarrow> None | Some m \<Rightarrow> m_KeyEvents m k)"

definition value_event_at :: "type_id \<Rightarrow> string \<Rightarrow> 'v Blackboard \<Rightarrow> fn_ptr option" where
  "value_event_at key k inst =
     (case bucket_at key inst of None \<Rightarrow> None | Some m \<Rightarrow> m_ValueEvents m k)"

definition pair_event_at :: "type_id \<Rightarrow> string \<Rightarrow> 'v Blackboard \<Rightarrow> fn_ptr option" where
  "pair_event_at key k inst =
     (case bucket_at key inst of None \<Rightarrow> None | Some m \<Rightarrow> m_PairEvents m k)"

definition slots ::
  "type_id \<Rightarrow> string \<Rightarrow> 'v Blackboard
     \<Rightarrow> 'v option \<times> fn_ptr option \<times> fn_ptr option \<times> fn_ptr option" where
  "slots key k inst =
     (value_at key k inst, key_event_at key k inst, value_event_at key k inst,
      pair_event_at key k inst)"

definition read_value :: "'v cpp_type \<Rightarrow> string \<Rightarrow> 'v Blackboard option \<Rightarrow> error + 'v" where
  "read_value T k m_Instance = map_sum id fst (read T k m_Instance)"

text \<open>
  \<^verbatim>\<open>write<A>(k, v, r); read<B>(j)\<close>: the value the read returns, or the error that
  stopped the sequence.
\<close>

definition write_then_read ::
  "'v callbacks \<Rightarrow> 'v cpp_type \<Rightarrow> string \<Rightarrow> 'v \<Rightarrow> bool \<Rightarrow> 'v cpp_type \<Rightarrow> string
     \<Rightarrow> 'v Blackboard option \<Rightarrow> error + 'v" where
  "write_then_read env A k v r B j m_Instance =
     and_then (Blackboard_write env A k v r m_Instance) (\<lambda>st. read_value B j (Some (fst st)))"

text \<open>The calls a write made through function pointers.\<close>

definition write_calls ::
  "'v callbacks \<Rightarrow> 'v cpp_type \<Rightarrow> string \<Rightarrow> 'v \<Rightarrow> bool \<Rightarrow> 'v Blackboard option
     \<Rightarrow> error + 'v invocation list" where
  "write_calls env T k v r m_Instance = map_sum id snd (Blackboard_write env T k v r m_Instance)"

text \<open>
  The registry right after the assignment \<^verbatim>\<open>map->m_Values[p_Key] = p_Value\<close> of
  \<^verbatim>\<open>write\<close>, before any callback runs.
\<close>

definition stored_state :: "'v cpp_type \<Rightarrow> string \<Rightarrow> 'v \<Rightarrow> 'v Blackboard \<Rightarrow> 'v Blackboard" where
  "stored_state T k v inst =
     (case supportType T inst of (key, inst1) \<Rightarrow>
        set_bucket key
          ((bucket_or_new key inst)\<lparr>m_Values := (m_Values (bucket_or_new key inst))(k \<mapsto> v)\<rparr>)
          inst1)"

text \<open>
  The calls the fan-out of \<^verbatim>\<open>write\<close> is expected to make for a key, read off the
  callback slots of a registry: one call per slot that holds a pointer, none for a slot
  that is empty or holds the null pointer, in the order key, value, pair.
\<close>

definition key_call :: "type_id \<Rightarrow> string \<Rightarrow> 'v Blackboard \<Rightarrow> 'v invocation list" where
  "key_call key k inst =
     (case key_event_at key k inst of
        None \<Rightarrow> []
      | Some f \<Rightarrow> if f \<noteq> nullptr then [Key_Event f k] else [])"

definition value_call :: "type_id \<Rightarrow> string \<Rightarrow> 'v \<Rightarrow> 'v Blackboard \<Rightarrow> 'v invocation list" where
  "value_call key k v inst =
     (case value_event_at key k inst of
        None \<Rightarrow> []
      | Some f \<Rightarrow> if f \<noteq> nullptr then [Value_Event f v] else [])"

definition pair_call :: "type_id \<Rightarrow> string \<Rightarrow> 'v \<Rightarrow> 'v Blackboard \<Rightarrow> 'v invocation list" where
  "pair_call key k v inst =
     (case pair_event_at key k inst of
        None \<Rightarrow> []
      | Some f \<Rightarrow> if f \<noteq> nullptr then [Pair_Event f k v] else [])"

definition fan_out :: "type_id \<Rightarrow> string \<Rightarrow> 'v \<Rightarrow> 'v Blackboard \<Rightarrow> 'v invocation list" where
  "fan_out key k v inst = key_call key k inst @ value_call key k v inst @ pair_call key k v inst"

text \<open>
  The calls a write makes through stored function pointers, in order; also those it made
  before it stopped with an error. With the flag unset there are none.
\<close>

definition raised ::
  "'v callbacks \<Rightarrow> 'v cpp_type \<Rightarrow> string \<Rightarrow> 'v \<Rightarrow> bool \<Rightarrow> 'v Blackboard \<Rightarrow> 'v invocation list" where
  "raised env T k v r inst =
     (if r
      then (case raise_key_event env (templateToID T) k (stored_state T k v inst, []) of
              Inl e \<Rightarrow> []
            | Inr st1 \<Rightarrow>
               (case raise_value_event env T (templateToID T) k st1 of
                  Inl e \<Rightarrow> snd st1
                | Inr st2 \<Rightarrow>
                   (case raise_pair_event env T (templateToID T) k st2 of
                      Inl e \<Rightarrow> snd st2
                    | Inr st3 \<Rightarrow> snd st3)))
      else [])"

text \<open>
  The registry after \<^verbatim>\<open>map->m_Values[p_Key]\<close> has been evaluated as the argument of a
  value or pair callback: for a key that a callback before has wiped, the default value
  has been inserted.
\<close>

definition touched :: "'v cpp_type \<Rightarrow> type_id \<Rightarrow> string \<Rightarrow> 'v Blackboard \<Rightarrow> 'v Blackboard" where
  "touched T key k s =
     (case bucket_at key s of None \<Rightarrow> s | Some m \<Rightarrow> set_bucket key (snd (index_Values T k m)) s)"


definition leaves_later ::
  "'v callbacks \<Rightarrow> type_id \<Rightarrow> string \<Rightarrow> 'v \<Rightarrow> 'v invocation \<Rightarrow> bool" where
  "leaves_later env key k v c =
     (\<forall>s. value_at key k s = Some v \<longrightarrow>
        value_at key k (env c s) = Some v
        \<and> value_event_at key k (env c s) = value_event_at key k s
        \<and> pair_event_at key k (env c s) = pair_event_at key k s)"

definition leaves_last ::
  "'v callbacks \<Rightarrow> type_id \<Rightarrow> string \<Rightarrow> 'v \<Rightarrow> 'v invocation \<Rightarrow> bool" where
  "leaves_last env key k v c =
     (\<forall>s. value_at key k s = Some v \<longrightarrow>
        value_at key k (env c s) = Some v
        \<and> pair_event_at key k (env c s) = pair_event_at key k s)"

definition leaves_registry ::
  "'v callbacks \<Rightarrow> type_id \<Rightarrow> string \<Rightarrow> 'v \<Rightarrow> 'v invocation \<Rightarrow> bool" where
  "leaves_registry env key k v c =
     (\<forall>s. value_at key k s = Some v \<longrightarrow> (\<forall>i. bucket_at i (env c s) = bucket_at i s))"

definition keeps_bucket :: "'v callbacks \<Rightarrow> type_id \<Rightarrow> 'v invocation \<Rightarrow> bool" where
  "keeps_bucket env key c = (\<forall>s. bucket_at key s \<noteq> None \<longrightarrow> bucket_at key (env c s) \<noteq> None)"

definition leaves_read ::
  "'v callbacks \<Rightarrow> 'v cpp_type \<Rightarrow> string \<Rightarrow> error + 'v \<Rightarrow> 'v invocation \<Rightarrow> bool" where
  "leaves_read env B k res c =
     (\<forall>s. read_value B k (Some s) = res \<longrightarrow> read_value B k (Some (env c s)) = res)"

definition keeps_slots :: "'v callbacks \<Rightarrow> type_id \<Rightarrow> string \<Rightarrow> bool" where
  "keeps_slots env key k = (\<forall>c s. slots key k (env c s) = slots key k s)"

text \<open>
  Example data. \<open>no_effect\<close> is the code of callbacks that do not touch the registry
  (they print, say). The others are the code of a program in which the function at
  address \<open>f\<close> has the body named and every other callback does not touch the registry:
  \<^item> \<open>callback_writes f T k v\<close>: \<^verbatim>\<open>Blackboard::write<T>(k, v, false);\<close>
  \<^item> \<open>callback_reads f T k\<close>: \<^verbatim>\<open>Blackboard::read<T>(k);\<close>
  \<^item> \<open>callback_subscribes f T k g\<close>: \<^verbatim>\<open>Blackboard::subscribe<T>(k, g);\<close> with \<open>g\<close> a
    value callback
  \<^item> \<open>callback_creates f\<close>: \<^verbatim>\<open>Blackboard::create();\<close>, which tears the registry down and
    leaves a new, empty one.
\<close>

definition no_effect :: "'v callbacks" where
  "no_effect c s = s"

definition called_pointer :: "'v invocation \<Rightarrow> fn_ptr" where
  "called_pointer c =
     (case c of Key_Event f k \<Rightarrow> f | Value_Event f v \<Rightarrow> f | Pair_Event f k v \<Rightarrow> f)"

definition callback_writes :: "fn_ptr \<Rightarrow> 'v cpp_type \<Rightarrow> string \<Rightarrow> 'v \<Rightarrow> 'v callbacks" where
  "callback_writes f T k v c s =
     (if called_pointer c = f
      then (case Blackboard_write no_effect T k v False (Some s) of
              Inl e \<Rightarrow> s
            | Inr st \<Rightarrow> fst st)
      else s)"

definition callback_reads :: "fn_ptr \<Rightarrow> 'v cpp_type \<Rightarrow> string \<Rightarrow> 'v callbacks" where
  "callback_reads f T k c s =
     (if called_pointer c = f
      then (case read T k (Some s) of Inl e \<Rightarrow> s | Inr res \<Rightarrow> snd res)
      else s)"

definition callback_subscribes :: "fn_ptr \<Rightarrow> 'v cpp_type \<Rightarrow> string \<Rightarrow> fn_ptr \<Rightarrow> 'v callbacks" where
  "callback_subscribes f T k g c s =
     (if called_pointer c = f
      then (case subscribe_value T k g (Some s) of Inl e \<Rightarrow> s | Inr s' \<Rightarrow> s')
      else s)"

definition callback_creates :: "fn_ptr \<Rightarrow> 'v callbacks" where
  "callback_creates f c s =
     (if called_pointer c = f
      then (case snd (create (Some s)) of None \<Rightarrow> s | Some s' \<Rightarrow> s')
      else s)"

definition int_type :: "int cpp_type" where
  "int_type = \<lparr>hash_code = 1, default_value = 0\<rparr>"

definition other_type :: "int cpp_type" where
  "other_type = \<lparr>hash_code = 2, default_value = 0\<rparr>"

text \<open>A type other than \<open>int_type\<close> whose hash code is the same.\<close>

definition colliding_type :: "int cpp_type" where
  "colliding_type = \<lparr>hash_code = 1, default_value = 7\<rparr>"

definition empty_board :: "int Blackboard" where
  "empty_board = \<lparr>m_DataStorage = []\<rparr>"

text \<open>
  Registries whose \<open>int_type\<close> bucket has, on \<open>''k''\<close>: the key callback \<open>7\<close> only; the
  value callback \<open>8\<close> only; all three callbacks \<open>7\<close>, \<open>8\<close> and \<open>9\<close>.
\<close>

definition key_subscribed :: "int Blackboard" where
  "key_subscribed =
     \<lparr>m_DataStorage = [(1, new_Value_Map\<lparr>m_KeyEvents := [''k'' \<mapsto> 7]\<rparr>)]\<rparr>"

definition value_subscribed :: "int Blackboard" where
  "value_subscribed =
     \<lparr>m_DataStorage = [(1, new_Value_Map\<lparr>m_ValueEvents := [''k'' \<mapsto> 8]\<rparr>)]\<rparr>"

definition all_subscribed :: "int Blackboard" where
  "all_subscribed =
     \<lparr>m_DataStorage =
        [(1, new_Value_Map\<lparr>m_KeyEvents := [''k'' \<mapsto> 7], m_ValueEvents := [''k'' \<mapsto> 8],
                           m_PairEvents := [''k'' \<mapsto> 9]\<rparr>)]\<rparr>"

text \<open>
  A registry with two buckets that both hold a value and a key callback under \<open>''k''\<close>:
  the state after \<^verbatim>\<open>write<int>("k", 1)\<close>, \<^verbatim>\<open>write<float>("k", 2)\<close> and two
  \<^verbatim>\<open>subscribe\<close> calls, the second type being \<open>other_type\<close>.
\<close>

definition two_buckets :: "int Blackboard" where
  "two_buckets =
     \<lparr>m_DataStorage =
        [(1, new_Value_Map\<lparr>m_Values := [''k'' \<mapsto> 1], m_KeyEvents := [''k'' \<mapsto> 7]\<rparr>),
         (2, new_Value_Map\<lparr>m_Values := [''k'' \<mapsto> 2], m_KeyEvents := [''k'' \<mapsto> 8]\<rparr>)]\<rparr>"

section \<open>Requests\<close>

text \<open>
  The public operations of the registry as one step function, so that a property of
  every operation can be stated once. A step returns the registry after the call and the
  calls the operation made through stored function pointers. Only \<^verbatim>\<open>write\<close> has such
  calls in its body; the bodies of the other operations contain none, which is the empty
  list here. \<^verbatim>\<open>wipeTypeKey<T>\<close>, which has no instance, is not among the requests.
\<close>

datatype 'v request =
  Write "'v cpp_type" string 'v bool
| Read "'v cpp_type" string
| Wipe_Key string
| Wipe_Board bool
| Subscribe_Key "'v cpp_type" string fn_ptr
| Subscribe_Value "'v cpp_type" string fn_ptr
| Subscribe_Pair "'v cpp_type" string fn_ptr
| Unsubscribe "'v cpp_type" string
| Unsubscribe_All string

definition silently :: "error + 'v Blackboard \<Rightarrow> error + 'v Blackboard \<times> 'v invocation list" where
  "silently r = map_sum id (\<lambda>inst. (inst, [])) r"

fun perform ::
  "'v callbacks \<Rightarrow> 'v request \<Rightarrow> 'v Blackboard option
     \<Rightarrow> error + 'v Blackboard \<times> 'v invocation list" where
  "perform env (Write T k v r) g = Blackboard_write env T k v r g"
| "perform env (Read T k) g = silently (map_sum id snd (read T k g))"
| "perform env (Wipe_Key k) g = silently (wipeKey k g)"
| "perform env (Wipe_Board b) g = silently (wipeBoard b g)"
| "perform env (Subscribe_Key T k f) g = silently (subscribe_key T k f g)"
| "perform env (Subscribe_Value T k f) g = silently (subscribe_value T k f g)"
| "perform env (Subscribe_Pair T k f) g = silently (subscribe_pair T k f g)"
| "perform env (Unsubscribe T k) g = silently (unsubscribe T k g)"
| "perform env (Unsubscribe_All k) g = silently (unsubscribeAll k g)"

fun raising :: "'v request \<Rightarrow> bool" where
  "raising (Write T k v r) = r"
| "raising req = False"

fun unsubscribing :: "'v request \<Rightarrow> bool" where
  "unsubscribing (Unsubscribe T k) = True"
| "unsubscribing (Unsubscribe_All k) = True"
| "unsubscribing req = False"

lemmas example_defs =
  int_type_def other_type_def empty_board_def key_subscribed_def value_subscribed_def
  all_subscribed_def two_buckets_def callback_writes_def called_pointer_def no_effect_def
  callback_reads_def callback_subscribes_def callback_creates_def colliding_type_def

lemmas model_defs =
  Blackboard_write_def read_def and_then_def supportType_def templateToID_def bucket_at_def
  set_bucket_def raise_key_event_def raise_value_event_def raise_pair_event_def nullptr_def
  index_Values_def new_Value_Map_def Let_def

lemmas observation_defs =
  value_at_def key_event_at_def value_event_at_def pair_event_at_def slots_def read_value_def
  write_then_read_def write_calls_def

section \<open>Basic facts\<close>

lemma bucket_at_set_bucket:
  "bucket_at k (set_bucket k' m inst) = (if k = k' then Some m else bucket_at k inst)"
  by (simp add: bucket_at_def set_bucket_def update_conv')

lemma set_bucket_same: "bucket_at key inst = Some m \<Longrightarrow> set_bucket key m inst = inst"
  by (simp add: bucket_at_def set_bucket_def update_triv)

lemma supportType_view:
  "\<exists>inst1. supportType T inst = (templateToID T, inst1) \<and>
     (\<forall>i. bucket_at i inst1 =
           (if i = templateToID T then Some (bucket_or_new i inst) else bucket_at i inst))"
  by (auto simp: supportType_def Let_def bucket_at_def bucket_or_new_def update_conv')

lemma index_Values_present: "m_Values m k = Some v \<Longrightarrow> index_Values T k m = (v, m)"
  by (simp add: index_Values_def)

lemma value_at_SomeD:
  "value_at key k inst = Some v \<Longrightarrow> \<exists>m. bucket_at key inst = Some m \<and> m_Values m k = Some v"
  by (auto simp: value_at_def split: option.splits)

lemma slots_SomeD:
  "slots key k inst = (Some v, ke, ve, pe) \<Longrightarrow>
     \<exists>m. bucket_at key inst = Some m \<and> m_Values m k = Some v \<and> m_KeyEvents m k = ke
        \<and> m_ValueEvents m k = ve \<and> m_PairEvents m k = pe"
  by (auto simp: slots_def value_at_def key_event_at_def value_event_at_def pair_event_at_def
      split: option.splits)

lemma keeps_slots_no_effect: "keeps_slots no_effect key k"
  by (simp add: keeps_slots_def no_effect_def)

lemma bucket_at_stored_state:
  "bucket_at i (stored_state T k v inst) =
     (if i = templateToID T
      then Some ((bucket_or_new i inst)\<lparr>m_Values := (m_Values (bucket_or_new i inst))(k \<mapsto> v)\<rparr>)
      else bucket_at i inst)"
  using supportType_view [of T inst]
  by (auto simp: stored_state_def bucket_at_set_bucket)

lemma value_at_stored_state:
  "value_at i j (stored_state T k v inst) =
     (if i = templateToID T \<and> j = k then Some v else value_at i j inst)"
  by (simp add: value_at_def bucket_at_stored_state bucket_or_new_def new_Value_Map_def
      split: option.split)

lemma key_event_at_stored_state:
  "key_event_at i j (stored_state T k v inst) = key_event_at i j inst"
  by (simp add: key_event_at_def bucket_at_stored_state bucket_or_new_def new_Value_Map_def
      split: option.split)

lemma value_event_at_stored_state:
  "value_event_at i j (stored_state T k v inst) = value_event_at i j inst"
  by (simp add: value_event_at_def bucket_at_stored_state bucket_or_new_def new_Value_Map_def
      split: option.split)

lemma pair_event_at_stored_state:
  "pair_event_at i j (stored_state T k v inst) = pair_event_at i j inst"
  by (simp add: pair_event_at_def bucket_at_stored_state bucket_or_new_def new_Value_Map_def
      split: option.split)

lemma slots_stored_state:
  "slots (templateToID T) k (stored_state T k v inst) =
     (Some v, key_event_at (templateToID T) k inst, value_event_at (templateToID T) k inst,
      pair_event_at (templateToID T) k inst)"
  by (simp add: slots_def value_at_stored_state key_event_at_stored_state
      value_event_at_stored_state pair_event_at_stored_state)

text \<open>
  \<^verbatim>\<open>write\<close> on a created registry is the assignment followed, when callbacks are
  asked for, by the three raise steps. The branch for a null bucket pointer is dead: 
  \<^verbatim>\<open>supportType\<close> has just made sure the bucket exists.
\<close>

lemma write_unfold:
  "Blackboard_write env T k v p_Raise (Some inst) =
      (if p_Raise
       then and_then (raise_key_event env (templateToID T) k (stored_state T k v inst, []))
              (\<lambda>st1. and_then (raise_value_event env T (templateToID T) k st1)
                 (raise_pair_event env T (templateToID T) k))
       else Inr (stored_state T k v inst, []))"
proof -
  obtain inst1 where s: "supportType T inst = (templateToID T, inst1)"
    and b: "\<And>i. bucket_at i inst1 =
           (if i = templateToID T then Some (bucket_or_new i inst) else bucket_at i inst)"
    using supportType_view [of T inst] by blast
  show ?thesis
    by (simp add: Blackboard_write_def stored_state_def s b)
qed

lemma read_value_eq:
  "read_value T k (Some inst) =
     Inr (case value_at (templateToID T) k inst of None \<Rightarrow> default_value T | Some v \<Rightarrow> v)"
proof -
  obtain inst1 where s: "supportType T inst = (templateToID T, inst1)"
    and b: "\<And>i. bucket_at i inst1 =
           (if i = templateToID T then Some (bucket_or_new i inst) else bucket_at i inst)"
    using supportType_view [of T inst] by blast
  show ?thesis
    by (simp add: read_value_def read_def s b index_Values_def value_at_def bucket_or_new_def
        new_Value_Map_def split: option.split)
qed

subsection \<open>A write step by step\<close>

text \<open>
  A raise step only adds to the calls made so far. Where the bucket is still there it
  returns, having made no call or one call.
\<close>

lemma raise_key_event_appends:
  "raise_key_event env key k (s, cs) = Inr (s', cs') \<Longrightarrow> set cs \<subseteq> set cs'"
  by (auto simp: raise_key_event_def split: option.splits if_splits)

lemma raise_value_event_appends:
  "raise_value_event env T key k (s, cs) = Inr (s', cs') \<Longrightarrow> set cs \<subseteq> set cs'"
  by (auto simp: raise_value_event_def split: option.splits if_splits prod.splits)

lemma raise_pair_event_appends:
  "raise_pair_event env T key k (s, cs) = Inr (s', cs') \<Longrightarrow> set cs \<subseteq> set cs'"
  by (auto simp: raise_pair_event_def split: option.splits if_splits prod.splits)

lemma raise_key_event_run:
  assumes "bucket_at key s \<noteq> None"
  shows "\<exists>s' cs'. raise_key_event env key k (s, cs) = Inr (s', cs')
           \<and> ((cs' = cs \<and> s' = s) \<or> (\<exists>c. cs' = cs @ [c] \<and> s' = env c s))"
  using assms by (auto simp: raise_key_event_def split: option.split)

lemma raise_value_event_run:
  assumes "bucket_at key s \<noteq> None"
  shows "\<exists>s' cs'. raise_value_event env T key k (s, cs) = Inr (s', cs')
           \<and> ((cs' = cs \<and> s' = s) \<or> (\<exists>c. cs' = cs @ [c] \<and> s' = env c (touched T key k s)))"
  using assms
  by (auto simp: raise_value_event_def touched_def split: option.split prod.split)

lemma raise_pair_event_run:
  assumes "bucket_at key s \<noteq> None"
  shows "\<exists>s' cs'. raise_pair_event env T key k (s, cs) = Inr (s', cs')
           \<and> ((cs' = cs \<and> s' = s) \<or> (\<exists>c. cs' = cs @ [c] \<and> s' = env c (touched T key k s)))"
  using assms
  by (auto simp: raise_pair_event_def touched_def split: option.split prod.split)

lemma raised_after_key:
  assumes "raise_key_event env (templateToID T) k (stored_state T k v inst, []) = Inr (s1, c1)"
  shows "set c1 \<subseteq> set (raised env T k v True inst)"
proof (cases "raise_value_event env T (templateToID T) k (s1, c1)")
  case (Inl e)
  with assms show ?thesis by (simp add: raised_def)
next
  case (Inr st2)
  obtain s2 c2 where st2: "st2 = (s2, c2)" by (cases st2)
  from Inr st2 have a: "set c1 \<subseteq> set c2"
    using raise_value_event_appends by fastforce
  show ?thesis
  proof (cases "raise_pair_event env T (templateToID T) k (s2, c2)")
    case (Inl e)
    with assms Inr st2 a show ?thesis by (simp add: raised_def)
  next
    case (Inr st3)
    obtain s3 c3 where st3: "st3 = (s3, c3)" by (cases st3)
    from Inr st3 have "set c2 \<subseteq> set c3"
      using raise_pair_event_appends by fastforce
    with assms \<open>raise_value_event env T (templateToID T) k (s1, c1) = Inr st2\<close> st2 Inr st3 a
    show ?thesis by (auto simp: raised_def)
  qed
qed

lemma raised_after_value:
  assumes "raise_key_event env (templateToID T) k (stored_state T k v inst, []) = Inr (s1, c1)"
    and "raise_value_event env T (templateToID T) k (s1, c1) = Inr (s2, c2)"
  shows "set c2 \<subseteq> set (raised env T k v True inst)"
proof (cases "raise_pair_event env T (templateToID T) k (s2, c2)")
  case (Inl e)
  with assms show ?thesis by (simp add: raised_def)
next
  case (Inr st3)
  obtain s3 c3 where st3: "st3 = (s3, c3)" by (cases st3)
  from Inr st3 have "set c2 \<subseteq> set c3"
    using raise_pair_event_appends by fastforce
  with assms Inr st3 show ?thesis by (auto simp: raised_def)
qed

text \<open>
  A property of the registry that holds after the assignment, implies that the bucket
  is there, and survives the evaluation of a callback's argument and every callback the
  write raises, holds when the write returns; and the write does return, with the calls
  \<open>raised\<close>.
\<close>

lemma write_run:
  assumes P0: "P (stored_state T k v inst)"
    and Pb: "\<And>s. P s \<Longrightarrow> bucket_at (templateToID T) s \<noteq> None"
    and Pt: "\<And>s. P s \<Longrightarrow> P (touched T (templateToID T) k s)"
    and Pc: "\<And>c s. c \<in> set (raised env T k v r inst) \<Longrightarrow> P s \<Longrightarrow> P (env c s)"
  shows "\<exists>inst'. Blackboard_write env T k v r (Some inst) = Inr (inst', raised env T k v r inst)
           \<and> P inst'"
proof (cases r)
  case False
  with P0 show ?thesis
    by (simp add: write_unfold raised_def)
next
  case True
  let ?key = "templateToID T" and ?s0 = "stored_state T k v inst"
  obtain s1 c1 where st1: "raise_key_event env ?key k (?s0, []) = Inr (s1, c1)"
    and d1: "(c1 = [] \<and> s1 = ?s0) \<or> (\<exists>c. c1 = [] @ [c] \<and> s1 = env c ?s0)"
    using raise_key_event_run [OF Pb [OF P0], of env k "[]"] by blast
  from d1 raised_after_key [OF st1] Pc P0 True have P1: "P s1"
    by auto
  obtain s2 c2 where st2: "raise_value_event env T ?key k (s1, c1) = Inr (s2, c2)"
    and d2: "(c2 = c1 \<and> s2 = s1) \<or> (\<exists>c. c2 = c1 @ [c] \<and> s2 = env c (touched T ?key k s1))"
    using raise_value_event_run [OF Pb [OF P1], of env T k c1] by blast
  from d2 raised_after_value [OF st1 st2] Pc Pt [OF P1] P1 True have P2: "P s2"
    by auto
  obtain s3 c3 where st3: "raise_pair_event env T ?key k (s2, c2) = Inr (s3, c3)"
    and d3: "(c3 = c2 \<and> s3 = s2) \<or> (\<exists>c. c3 = c2 @ [c] \<and> s3 = env c (touched T ?key k s2))"
    using raise_pair_event_run [OF Pb [OF P2], of env T k c2] by blast
  have R: "raised env T k v r inst = c3"
    by (simp add: raised_def True st1 st2 st3)
  from d3 R Pc Pt [OF P2] P2 have P3: "P s3"
    by auto
  from R True have R': "raised env T k v True inst = c3"
    by simp
  show ?thesis
    by (simp add: write_unfold True and_then_def st1 st2 st3 R' P3)
qed

lemma write_calls_raised:
  "Blackboard_write env T k v r (Some inst) = Inr (inst', calls) \<Longrightarrow> calls = raised env T k v r inst"
  by (auto simp: write_unfold raised_def and_then_def split: if_splits sum.splits)


lemma touched_present: "value_at key k s = Some v \<Longrightarrow> touched T key k s = s"
  by (auto simp: touched_def value_at_def index_Values_def set_bucket_same split: option.splits)


text \<open>
  With a value stored for the key, a raise step is the call of the pointer in its slot,
  and the argument of a value or pair callback is that value.
\<close>

lemma raise_key_event_at:
  assumes "value_at key k s = Some v"
  shows "raise_key_event env key k (s, cs) =
     (case key_event_at key k s of
        None \<Rightarrow> Inr (s, cs)
      | Some f \<Rightarrow> if f \<noteq> nullptr then Inr (env (Key_Event f k) s, cs @ [Key_Event f k])
                  else Inr (s, cs))"
  using value_at_SomeD [OF assms]
  by (auto simp: raise_key_event_def key_event_at_def split: option.split)

lemma raise_value_event_at:
  assumes "value_at key k s = Some v"
  shows "raise_value_event env T key k (s, cs) =
     (case value_event_at key k s of
        None \<Rightarrow> Inr (s, cs)
      | Some f \<Rightarrow> if f \<noteq> nullptr then Inr (env (Value_Event f v) s, cs @ [Value_Event f v])
                  else Inr (s, cs))"
  using value_at_SomeD [OF assms]
  by (auto simp: raise_value_event_def value_event_at_def index_Values_present set_bucket_same
      split: option.split)

lemma raise_pair_event_at:
  assumes "value_at key k s = Some v"
  shows "raise_pair_event env T key k (s, cs) =
     (case pair_event_at key k s of
        None \<Rightarrow> Inr (s, cs)
      | Some f \<Rightarrow> if f \<noteq> nullptr then Inr (env (Pair_Event f k v) s, cs @ [Pair_Event f k v])
                  else Inr (s, cs))"
  using value_at_SomeD [OF assms]
  by (auto simp: raise_pair_event_def pair_event_at_def index_Values_present set_bucket_same
      split: option.split)

lemma key_step:
  assumes "value_at key k s = Some v"
    and "\<forall>c \<in> set (key_call key k s). leaves_later env key k v c"
  shows "\<exists>s'. raise_key_event env key k (s, cs) = Inr (s', cs @ key_call key k s)
           \<and> value_at key k s' = Some v
           \<and> value_event_at key k s' = value_event_at key k s
           \<and> pair_event_at key k s' = pair_event_at key k s"
  using assms
  by (auto simp: raise_key_event_at key_call_def leaves_later_def split: option.splits)

lemma value_step:
  assumes "value_at key k s = Some v"
    and "\<forall>c \<in> set (value_call key k v s). leaves_last env key k v c"
  shows "\<exists>s'. raise_value_event env T key k (s, cs) = Inr (s', cs @ value_call key k v s)
           \<and> value_at key k s' = Some v
           \<and> pair_event_at key k s' = pair_event_at key k s"
  using assms
  by (auto simp: raise_value_event_at value_call_def leaves_last_def split: option.splits)

lemma pair_step:
  assumes "value_at key k s = Some v"
  shows "\<exists>s'. raise_pair_event env T key k (s, cs) = Inr (s', cs @ pair_call key k v s)"
  using assms
  by (auto simp: raise_pair_event_at pair_call_def split: option.splits)

lemma write_calls_fan_out:
  assumes hk: "\<forall>c \<in> set (key_call (templateToID T) k inst). leaves_later env (templateToID T) k v c"
    and hv: "\<forall>c \<in> set (value_call (templateToID T) k v inst).
               leaves_last env (templateToID T) k v c"
  shows "write_calls env T k v True (Some inst) = Inr (fan_out (templateToID T) k v inst)"
proof -
  let ?key = "templateToID T" and ?s0 = "stored_state T k v inst"
  have v0: "value_at ?key k ?s0 = Some v"
    by (simp add: value_at_stored_state)
  have k0: "key_call ?key k ?s0 = key_call ?key k inst"
    by (simp add: key_call_def key_event_at_stored_state)
  from hk have hk0: "\<forall>c \<in> set (key_call ?key k ?s0). leaves_later env ?key k v c"
    by (simp add: k0)
  obtain s1 where st1: "raise_key_event env ?key k (?s0, []) = Inr (s1, [] @ key_call ?key k ?s0)"
    and v1: "value_at ?key k s1 = Some v"
    and e1: "value_event_at ?key k s1 = value_event_at ?key k ?s0"
    and p1: "pair_event_at ?key k s1 = pair_event_at ?key k ?s0"
    using key_step [OF v0 hk0, of "[]"] by blast
  have c1: "value_call ?key k v s1 = value_call ?key k v inst"
    by (simp add: value_call_def e1 value_event_at_stored_state)
  from hv have hv1: "\<forall>c \<in> set (value_call ?key k v s1). leaves_last env ?key k v c"
    by (simp add: c1)
  obtain s2 where st2: "raise_value_event env T ?key k (s1, key_call ?key k inst)
      = Inr (s2, key_call ?key k inst @ value_call ?key k v s1)"
    and v2: "value_at ?key k s2 = Some v"
    and p2: "pair_event_at ?key k s2 = pair_event_at ?key k s1"
    using value_step [OF v1 hv1, of T "key_call ?key k inst"] by blast
  have c2: "pair_call ?key k v s2 = pair_call ?key k v inst"
    by (simp add: pair_call_def p2 p1 pair_event_at_stored_state)
  obtain s3 where st3:
    "raise_pair_event env T ?key k (s2, key_call ?key k inst @ value_call ?key k v inst)
      = Inr (s3, (key_call ?key k inst @ value_call ?key k v inst) @ pair_call ?key k v s2)"
    using pair_step [OF v2, of env T "key_call ?key k inst @ value_call ?key k v inst"] by blast
  from st1 st2 st3 show ?thesis
    by (simp add: write_calls_def write_unfold and_then_def fan_out_def k0 c1 c2)
qed

subsection \<open>A callback that reads\<close>

lemma read_state:
  "\<exists>x s'. read T j (Some s) = Inr (x, s') \<and>
     (\<forall>i. bucket_at i s' =
        (if i = templateToID T then Some (snd (index_Values T j (bucket_or_new i s)))
         else bucket_at i s))"
proof -
  obtain inst1 where s: "supportType T s = (templateToID T, inst1)"
    and b: "\<And>i. bucket_at i inst1 =
           (if i = templateToID T then Some (bucket_or_new i s) else bucket_at i s)"
    using supportType_view [of T s] by blast
  show ?thesis
    by (simp add: read_def s b bucket_at_set_bucket split: prod.split)
qed

lemma callback_reads_bucket:
  "bucket_at i (callback_reads f T j c s) =
     (if called_pointer c = f \<and> i = templateToID T
      then Some (snd (index_Values T j (bucket_or_new i s)))
      else bucket_at i s)"
  using read_state [of T j s]
  by (auto simp: callback_reads_def)

lemma callback_reads_value:
  "value_at key k s = Some v \<Longrightarrow> value_at key k (callback_reads f T j c s) = Some v"
  by (auto simp: value_at_def callback_reads_bucket index_Values_def bucket_or_new_def
      split: option.splits)

lemma callback_reads_events:
  "key_event_at key k (callback_reads f T j c s) = key_event_at key k s"
  "value_event_at key k (callback_reads f T j c s) = value_event_at key k s"
  "pair_event_at key k (callback_reads f T j c s) = pair_event_at key k s"
  by (auto simp: key_event_at_def value_event_at_def pair_event_at_def callback_reads_bucket
      index_Values_def bucket_or_new_def new_Value_Map_def split: option.splits)

lemma callback_reads_own_key:
  "value_at (templateToID T) k s = Some v \<Longrightarrow>
     bucket_at i (callback_reads f T k c s) = bucket_at i s"
  by (auto simp: value_at_def callback_reads_bucket index_Values_def bucket_or_new_def
      split: option.splits)


lemma leaves_later_callback_reads: "leaves_later (callback_reads f T j) key k v c"
  by (simp add: leaves_later_def callback_reads_value callback_reads_events)

lemma leaves_last_callback_reads: "leaves_last (callback_reads f T j) key k v c"
  by (simp add: leaves_last_def callback_reads_value callback_reads_events)

lemma leaves_registry_callback_reads:
  "leaves_registry (callback_reads f T k) (templateToID T) k v c"
  by (simp add: leaves_registry_def callback_reads_own_key)



subsection \<open>Callbacks that meet one proviso of the isolation of types and not the other\<close>

text \<open>
  A callback that writes removes no bucket. A callback that calls \<^verbatim>\<open>create\<close> leaves a
  read that returned the default value returning the default value.
\<close>

lemma keeps_bucket_callback_writes: "keeps_bucket (callback_writes f T k v) key c"
  by (simp add: keeps_bucket_def callback_writes_def write_unfold bucket_at_stored_state)

lemma leaves_read_callback_creates:
  "leaves_read (callback_creates f) B k (Inr (default_value B)) c"
  by (simp add: leaves_read_def callback_creates_def create_def read_value_eq value_at_def
      bucket_at_def)

subsection \<open>The calls of a write in a program whose callbacks keep the slots\<close>

lemma raise_key_event_calls:
  assumes "keeps_slots env key k" and "slots key k inst = (Some v, ke, ve, pe)"
  shows "\<exists>inst'. raise_key_event env key k (inst, calls) =
            Inr (inst', calls @
              (case ke of None \<Rightarrow> [] | Some f \<Rightarrow> if f \<noteq> nullptr then [Key_Event f k] else []))
           \<and> slots key k inst' = (Some v, ke, ve, pe)"
proof -
  obtain m where m: "bucket_at key inst = Some m" "m_KeyEvents m k = ke"
    using slots_SomeD [OF assms(2)] by blast
  from assms show ?thesis
    by (simp add: raise_key_event_def m keeps_slots_def split: option.split)
qed

lemma raise_value_event_calls:
  assumes "keeps_slots env key k" and "slots key k inst = (Some v, ke, ve, pe)"
  shows "\<exists>inst'. raise_value_event env T key k (inst, calls) =
            Inr (inst', calls @
              (case ve of None \<Rightarrow> [] | Some f \<Rightarrow> if f \<noteq> nullptr then [Value_Event f v] else []))
           \<and> slots key k inst' = (Some v, ke, ve, pe)"
proof -
  obtain m where m: "bucket_at key inst = Some m" "m_Values m k = Some v"
      "m_ValueEvents m k = ve"
    using slots_SomeD [OF assms(2)] by blast
  from assms show ?thesis
    by (simp add: raise_value_event_def m keeps_slots_def index_Values_present set_bucket_same
        split: option.split)
qed

lemma raise_pair_event_calls:
  assumes "keeps_slots env key k" and "slots key k inst = (Some v, ke, ve, pe)"
  shows "\<exists>inst'. raise_pair_event env T key k (inst, calls) =
            Inr (inst', calls @
              (case pe of None \<Rightarrow> [] | Some f \<Rightarrow> if f \<noteq> nullptr then [Pair_Event f k v] else []))
           \<and> slots key k inst' = (Some v, ke, ve, pe)"
proof -
  obtain m where m: "bucket_at key inst = Some m" "m_Values m k = Some v"
      "m_PairEvents m k = pe"
    using slots_SomeD [OF assms(2)] by blast
  from assms show ?thesis
    by (simp add: raise_pair_event_def m keeps_slots_def index_Values_present set_bucket_same
        split: option.split)
qed

lemma write_calls_raise:
  assumes ks: "keeps_slots env (templateToID T) k"
  shows "write_calls env T k v True (Some inst) = Inr (fan_out (templateToID T) k v inst)"
proof -
  let ?key = "templateToID T"
  let ?ke = "key_event_at ?key k inst" and ?ve = "value_event_at ?key k inst"
    and ?pe = "pair_event_at ?key k inst"
  note s0 = slots_stored_state [of T k v inst]
  obtain i1 where s1: "raise_key_event env ?key k (stored_state T k v inst, []) =
      Inr (i1, [] @ (case ?ke of None \<Rightarrow> []
                     | Some f \<Rightarrow> if f \<noteq> nullptr then [Key_Event f k] else []))"
    and v1: "slots ?key k i1 = (Some v, ?ke, ?ve, ?pe)"
    using raise_key_event_calls [OF ks s0] by blast
  obtain i2 where s2: "raise_value_event env T ?key k (i1, key_call ?key k inst) =
      Inr (i2, key_call ?key k inst @
             (case ?ve of None \<Rightarrow> []
              | Some f \<Rightarrow> if f \<noteq> nullptr then [Value_Event f v] else []))"
    and v2: "slots ?key k i2 = (Some v, ?ke, ?ve, ?pe)"
    using raise_value_event_calls [OF ks v1] by blast
  obtain i3 where s3:
    "raise_pair_event env T ?key k (i2, key_call ?key k inst @ value_call ?key k v inst) =
      Inr (i3, (key_call ?key k inst @ value_call ?key k v inst) @
             (case ?pe of None \<Rightarrow> []
              | Some f \<Rightarrow> if f \<noteq> nullptr then [Pair_Event f k v] else []))"
    using raise_pair_event_calls [OF ks v2] by blast
  show ?thesis
    using s1 s2 s3
    by (simp add: write_calls_def write_unfold and_then_def fan_out_def key_call_def
        value_call_def pair_call_def)
qed

lemma write_calls_silent: "write_calls env T k v False (Some inst) = Inr []"
  by (simp add: write_calls_def write_unfold)

section \<open>Round trip of a write and a read\<close>




section \<open>The fan-out of a write\<close>

text \<open>
  C2. In every created registry, \<^verbatim>\<open>write<T>(k, v, true)\<close> calls, in this order, the key
  callback of \<open>k\<close> with \<open>k\<close>, the value callback with \<open>v\<close> and the pair callback with
  \<open>k\<close> and \<open>v\<close>, each only if the slot holds a pointer that is not null, and nothing
  else: provided the key callback registered for \<open>k\<close>, if there is one, is one whose
  code leaves alone the value \<open>v\<close> stored for \<open>k\<close> and the value and pair slots of \<open>k\<close>,
  and the value callback registered for \<open>k\<close>, if there is one, is one whose code leaves
  alone the value \<open>v\<close> and the pair slot. \<^verbatim>\<open>write<T>(k, v, false)\<close> calls nothing.
\<close>

theorem write_fan_out:
  "((\<forall>c \<in> set (key_call (templateToID T) k inst). leaves_later env (templateToID T) k v c)
      \<and> (\<forall>c \<in> set (value_call (templateToID T) k v inst).
            leaves_last env (templateToID T) k v c) \<longrightarrow>
      write_calls env T k v True (Some inst) = Inr (fan_out (templateToID T) k v inst))
   \<and> write_calls env T k v False (Some inst) = Inr []"
  by (simp add: write_calls_fan_out write_calls_silent)

text \<open>
  An instance with all three callbacks on \<open>''k''\<close>, the first of which calls back into
  the registry to read the key that is written.
\<close>

theorem write_fan_out_witness:
  "write_calls (callback_reads 7 int_type ''k'') int_type ''k'' 42 True (Some all_subscribed)
     = Inr [Key_Event 7 ''k'', Value_Event 8 42, Pair_Event 9 ''k'' 42]
   \<and> write_calls (callback_reads 7 int_type ''k'') int_type ''k'' 42 False
       (Some all_subscribed) = Inr []"
proof -
  let ?env = "callback_reads 7 int_type ''k''"
  have fan: "fan_out (templateToID int_type) ''k'' 42 all_subscribed
      = [Key_Event 7 ''k'', Value_Event 8 42, Pair_Event 9 ''k'' 42]"
    by (simp add: fan_out_def key_call_def value_call_def pair_call_def key_event_at_def
        value_event_at_def pair_event_at_def bucket_at_def templateToID_def int_type_def
        all_subscribed_def new_Value_Map_def nullptr_def)
  have "\<forall>c \<in> set (key_call (templateToID int_type) ''k'' all_subscribed).
      leaves_later ?env (templateToID int_type) ''k'' 42 c"
    and "\<forall>c \<in> set (value_call (templateToID int_type) ''k'' 42 all_subscribed).
      leaves_last ?env (templateToID int_type) ''k'' 42 c"
    by (simp_all add: leaves_later_callback_reads leaves_last_callback_reads)
  with write_fan_out [where env = ?env and T = int_type
      and k = "''k''" and v = 42 and inst = all_subscribed]
  show ?thesis
    by (simp add: fan)
qed

text \<open>
  The claim without the proviso fails, with the three callbacks \<open>7\<close>, \<open>8\<close> and \<open>9\<close> on
  \<open>''k''\<close>. When the body of \<open>7\<close> is \<^verbatim>\<open>Blackboard::write<int>("k", 99, false);\<close>, the
  call \<^verbatim>\<open>write<int>("k", 5, true)\<close> hands 99 to the value and pair callbacks, not the
  value 5 it wrote. When that is the body of the value callback \<open>8\<close>, the write hands 5
  to \<open>8\<close> and 99 to the pair callback. When the body of \<open>7\<close> is
  \<^verbatim>\<open>Blackboard::subscribe<int>("k", g);\<close> with \<open>g\<close> the value callback \<open>10\<close>, the write
  calls \<open>10\<close>, which was not registered when it began, and not \<open>8\<close>, which was.
\<close>

theorem write_fan_out_counterexample:
  "write_calls (callback_writes 7 int_type ''k'' 99) int_type ''k'' 5 True (Some all_subscribed)
     = Inr [Key_Event 7 ''k'', Value_Event 8 99, Pair_Event 9 ''k'' 99]
   \<and> write_calls (callback_writes 8 int_type ''k'' 99) int_type ''k'' 5 True
       (Some all_subscribed)
     = Inr [Key_Event 7 ''k'', Value_Event 8 5, Pair_Event 9 ''k'' 99]
   \<and> write_calls (callback_subscribes 7 int_type ''k'' 10) int_type ''k'' 5 True
       (Some all_subscribed)
     = Inr [Key_Event 7 ''k'', Value_Event 10 5, Pair_Event 9 ''k'' 5]"
  by (simp add: observation_defs model_defs example_defs subscribe_value_def)

section \<open>Isolation of types\<close>




section \<open>Reading a key that was never written\<close>

text \<open>
  C6. In every created registry, also one just created, \<^verbatim>\<open>read<T>(k)\<close> of a key that
  holds no value under \<open>T\<close> returns the value-initialised \<open>T\<close> and no error, and so
  does a second read after it; a read after writing that default value returns the
  same, so the two cases look alike.
\<close>

theorem read_missing_key:
  assumes "value_at (templateToID T) k inst = None"
  shows "read_value T k (Some inst) = Inr (default_value T)
         \<and> read_value T k (snd (create g)) = Inr (default_value T)
         \<and> and_then (read T k (Some inst)) (\<lambda>res. read_value T k (Some (snd res)))
             = Inr (default_value T)
         \<and> write_then_read env T k (default_value T) False T k (Some inst)
             = read_value T k (Some inst)"
proof -
  have written:
    "write_then_read env T k (default_value T) False T k (Some inst) = Inr (default_value T)"
    by (simp add: write_then_read_def write_unfold and_then_def read_value_eq
        value_at_stored_state)
  obtain inst1 where s: "supportType T inst = (templateToID T, inst1)"
    and b: "\<And>i. bucket_at i inst1 =
           (if i = templateToID T then Some (bucket_or_new i inst) else bucket_at i inst)"
    using supportType_view [of T inst] by blast
  from assms have "m_Values (bucket_or_new (templateToID T) inst) k = None"
    by (simp add: value_at_def bucket_or_new_def new_Value_Map_def split: option.splits)
  then have again: "and_then (read T k (Some inst)) (\<lambda>res. read_value T k (Some (snd res)))
      = Inr (default_value T)"
    by (simp add: and_then_def read_def s b index_Values_def read_value_eq value_at_def
        bucket_at_set_bucket)
  from assms written again show ?thesis
    by (simp add: read_value_eq create_def Let_def value_at_def bucket_at_def)
qed

theorem read_missing_key_witness:
  "read_value int_type ''nope'' (Some empty_board) = Inr 0
   \<and> read_value int_type ''nope'' (snd (create None)) = Inr 0
   \<and> and_then (read int_type ''nope'' (Some empty_board))
        (\<lambda>res. read_value int_type ''nope'' (Some (snd res))) = Inr 0
   \<and> write_then_read no_effect int_type ''nope'' 0 False int_type ''nope'' (Some empty_board)
       = read_value int_type ''nope'' (Some empty_board)"
  using read_missing_key [where T = int_type and k = "''nope''" and inst = empty_board
      and g = None and env = no_effect]
  by (simp add: value_at_def bucket_at_def empty_board_def int_type_def)

section \<open>The frame of a write\<close>

lemma observations_cong:
  assumes "\<And>i. bucket_at i s = bucket_at i s'"
  shows "value_at i j s = value_at i j s'" and "key_event_at i j s = key_event_at i j s'"
    and "value_event_at i j s = value_event_at i j s'"
    and "pair_event_at i j s = pair_event_at i j s'"
  by (simp_all add: value_at_def key_event_at_def value_event_at_def pair_event_at_def assms)

text \<open>
  C9. In every created registry, \<^verbatim>\<open>write<T>(k, v, r)\<close> returns, creates the bucket of
  \<open>T\<close> if it was missing, and changes nothing but the value stored for \<open>k\<close> in that
  bucket: every other value, in this bucket and in the others, and every callback slot
  is as before; provided every callback that the write raises is one whose code, run
  while \<open>v\<close> is stored for \<open>k\<close> in the bucket of \<open>T\<close>, changes no bucket. A write that
  raises no callback meets the proviso, whatever the code of the program's callbacks.
\<close>

theorem write_frame:
  assumes "\<forall>c \<in> set (raised env T k v r inst). leaves_registry env (templateToID T) k v c"
  shows "\<exists>inst' calls. Blackboard_write env T k v r (Some inst) = Inr (inst', calls)
     \<and> (\<forall>i j. value_at i j inst' =
                 (if i = templateToID T \<and> j = k then Some v else value_at i j inst))
     \<and> (\<forall>i j. key_event_at i j inst' = key_event_at i j inst)
     \<and> (\<forall>i j. value_event_at i j inst' = value_event_at i j inst)
     \<and> (\<forall>i j. pair_event_at i j inst' = pair_event_at i j inst)
     \<and> (\<forall>i. (bucket_at i inst' = None) = (i \<noteq> templateToID T \<and> bucket_at i inst = None))"
proof -
  let ?key = "templateToID T"
  let ?P = "\<lambda>s. \<forall>i. bucket_at i s = bucket_at i (stored_state T k v inst)"
  have stored: "value_at ?key k s = Some v" if "?P s" for s
    using that observations_cong(1) [of s "stored_state T k v inst" ?key k]
    by (simp add: value_at_stored_state)
  have "\<exists>inst'. Blackboard_write env T k v r (Some inst) = Inr (inst', raised env T k v r inst)
      \<and> ?P inst'"
  proof (rule write_run)
    show "?P (stored_state T k v inst)"
      by simp
    show "bucket_at ?key s \<noteq> None" if "?P s" for s
      using that by (simp add: bucket_at_stored_state)
    show "?P (touched T ?key k s)" if "?P s" for s
      using that stored [OF that] by (simp add: touched_present)
    show "?P (env c s)" if "c \<in> set (raised env T k v r inst)" and "?P s" for c s
      using that assms stored [OF that(2)] by (auto simp: leaves_registry_def)
  qed
  then obtain inst' where w: "Blackboard_write env T k v r (Some inst)
      = Inr (inst', raised env T k v r inst)"
    and b: "\<And>i. bucket_at i inst' = bucket_at i (stored_state T k v inst)"
    by blast
  have "value_at i j inst' = (if i = templateToID T \<and> j = k then Some v else value_at i j inst)"
    for i j
    using observations_cong(1) [OF b] by (simp add: value_at_stored_state)
  moreover have "key_event_at i j inst' = key_event_at i j inst" for i j
    using observations_cong(2) [OF b] by (simp add: key_event_at_stored_state)
  moreover have "value_event_at i j inst' = value_event_at i j inst" for i j
    using observations_cong(3) [OF b] by (simp add: value_event_at_stored_state)
  moreover have "pair_event_at i j inst' = pair_event_at i j inst" for i j
    using observations_cong(4) [OF b] by (simp add: pair_event_at_stored_state)
  moreover have "(bucket_at i inst' = None) = (i \<noteq> templateToID T \<and> bucket_at i inst = None)"
    for i
    by (simp add: b bucket_at_stored_state)
  ultimately show ?thesis
    using w by blast
qed

text \<open>
  An instance with two buckets in which the write raises a callback that calls back into
  the registry: the key callback \<open>7\<close> of \<open>''k''\<close> has the body
  \<^verbatim>\<open>Blackboard::read<int>("k");\<close>.
\<close>

theorem write_frame_witness:
  "\<exists>inst' calls.
      Blackboard_write (callback_reads 7 int_type ''k'') int_type ''k'' 5 True (Some two_buckets)
        = Inr (inst', calls)
     \<and> (\<forall>i j. value_at i j inst' =
                 (if i = templateToID int_type \<and> j = ''k'' then Some 5
                  else value_at i j two_buckets))
     \<and> (\<forall>i j. key_event_at i j inst' = key_event_at i j two_buckets)
     \<and> (\<forall>i j. value_event_at i j inst' = value_event_at i j two_buckets)
     \<and> (\<forall>i j. pair_event_at i j inst' = pair_event_at i j two_buckets)
     \<and> (\<forall>i. (bucket_at i inst' = None) =
               (i \<noteq> templateToID int_type \<and> bucket_at i two_buckets = None))"
  by (rule write_frame) (simp add: leaves_registry_callback_reads)

text \<open>
  The claim without the proviso fails: the key callback \<open>7\<close> of \<open>''k''\<close> has the body
  \<^verbatim>\<open>Blackboard::write<int>("j", 1, false);\<close>, so \<^verbatim>\<open>write<int>("k", 5)\<close> leaves a value
  under the other key \<open>''j''\<close>, where there was none.
\<close>

theorem write_frame_counterexample:
  "map_sum id (\<lambda>st. value_at 1 ''j'' (fst st))
     (Blackboard_write (callback_writes 7 int_type ''j'' 1) int_type ''k'' 5 True
        (Some key_subscribed)) = Inr (Some 1)
   \<and> value_at 1 ''j'' key_subscribed = None"
  by (simp add: observation_defs model_defs example_defs)

section \<open>Subscribing\<close>

lemma subscribe_key_bucket:
  "\<exists>inst'. subscribe_key T k cb (Some inst) = Inr inst' \<and>
     (\<forall>i. bucket_at i inst' =
        (if i = templateToID T
         then Some ((bucket_or_new i inst)
                \<lparr>m_KeyEvents := (m_KeyEvents (bucket_or_new i inst))(k \<mapsto> cb)\<rparr>)
         else bucket_at i inst))"
proof -
  obtain inst1 where s: "supportType T inst = (templateToID T, inst1)"
    and b: "\<And>i. bucket_at i inst1 =
           (if i = templateToID T then Some (bucket_or_new i inst) else bucket_at i inst)"
    using supportType_view [of T inst] by blast
  show ?thesis
    by (simp add: subscribe_key_def s b bucket_at_set_bucket)
qed

lemma subscribe_value_bucket:
  "\<exists>inst'. subscribe_value T k cb (Some inst) = Inr inst' \<and>
     (\<forall>i. bucket_at i inst' =
        (if i = templateToID T
         then Some ((bucket_or_new i inst)
                \<lparr>m_ValueEvents := (m_ValueEvents (bucket_or_new i inst))(k \<mapsto> cb)\<rparr>)
         else bucket_at i inst))"
proof -
  obtain inst1 where s: "supportType T inst = (templateToID T, inst1)"
    and b: "\<And>i. bucket_at i inst1 =
           (if i = templateToID T then Some (bucket_or_new i inst) else bucket_at i inst)"
    using supportType_view [of T inst] by blast
  show ?thesis
    by (simp add: subscribe_value_def s b bucket_at_set_bucket)
qed

lemma subscribe_pair_bucket:
  "\<exists>inst'. subscribe_pair T k cb (Some inst) = Inr inst' \<and>
     (\<forall>i. bucket_at i inst' =
        (if i = templateToID T
         then Some ((bucket_or_new i inst)
                \<lparr>m_PairEvents := (m_PairEvents (bucket_or_new i inst))(k \<mapsto> cb)\<rparr>)
         else bucket_at i inst))"
proof -
  obtain inst1 where s: "supportType T inst = (templateToID T, inst1)"
    and b: "\<And>i. bucket_at i inst1 =
           (if i = templateToID T then Some (bucket_or_new i inst) else bucket_at i inst)"
    using supportType_view [of T inst] by blast
  show ?thesis
    by (simp add: subscribe_pair_def s b bucket_at_set_bucket)
qed

lemma subscribe_value_slots:
  "\<exists>inst'. subscribe_value T k cb (Some inst) = Inr inst'
      \<and> (\<forall>i j. value_event_at i j inst' =
                  (if i = templateToID T \<and> j = k then Some cb else value_event_at i j inst))
      \<and> (\<forall>i j. key_event_at i j inst' = key_event_at i j inst)
      \<and> (\<forall>i j. pair_event_at i j inst' = pair_event_at i j inst)
      \<and> (\<forall>i j. value_at i j inst' = value_at i j inst)"
proof -
  obtain inst' where s: "subscribe_value T k cb (Some inst) = Inr inst'"
    and b: "\<And>i. bucket_at i inst' =
        (if i = templateToID T
         then Some ((bucket_or_new i inst)
                \<lparr>m_ValueEvents := (m_ValueEvents (bucket_or_new i inst))(k \<mapsto> cb)\<rparr>)
         else bucket_at i inst)"
    using subscribe_value_bucket [of T k cb inst] by blast
  show ?thesis
    by (simp add: s b value_at_def key_event_at_def value_event_at_def pair_event_at_def
        bucket_or_new_def new_Value_Map_def split: option.split)
qed

lemma subscribe_key_slots:
  "\<exists>inst'. subscribe_key T k cb (Some inst) = Inr inst'
      \<and> (\<forall>i j. key_event_at i j inst' =
                  (if i = templateToID T \<and> j = k then Some cb else key_event_at i j inst))
      \<and> (\<forall>i j. value_event_at i j inst' = value_event_at i j inst)
      \<and> (\<forall>i j. pair_event_at i j inst' = pair_event_at i j inst)
      \<and> (\<forall>i j. value_at i j inst' = value_at i j inst)"
proof -
  obtain inst' where s: "subscribe_key T k cb (Some inst) = Inr inst'"
    and b: "\<And>i. bucket_at i inst' =
        (if i = templateToID T
         then Some ((bucket_or_new i inst)
                \<lparr>m_KeyEvents := (m_KeyEvents (bucket_or_new i inst))(k \<mapsto> cb)\<rparr>)
         else bucket_at i inst)"
    using subscribe_key_bucket [of T k cb inst] by blast
  show ?thesis
    by (simp add: s b value_at_def key_event_at_def value_event_at_def pair_event_at_def
        bucket_or_new_def new_Value_Map_def split: option.split)
qed

lemma subscribe_pair_slots:
  "\<exists>inst'. subscribe_pair T k cb (Some inst) = Inr inst'
      \<and> (\<forall>i j. pair_event_at i j inst' =
                  (if i = templateToID T \<and> j = k then Some cb else pair_event_at i j inst))
      \<and> (\<forall>i j. key_event_at i j inst' = key_event_at i j inst)
      \<and> (\<forall>i j. value_event_at i j inst' = value_event_at i j inst)
      \<and> (\<forall>i j. value_at i j inst' = value_at i j inst)"
proof -
  obtain inst' where s: "subscribe_pair T k cb (Some inst) = Inr inst'"
    and b: "\<And>i. bucket_at i inst' =
        (if i = templateToID T
         then Some ((bucket_or_new i inst)
                \<lparr>m_PairEvents := (m_PairEvents (bucket_or_new i inst))(k \<mapsto> cb)\<rparr>)
         else bucket_at i inst)"
    using subscribe_pair_bucket [of T k cb inst] by blast
  show ?thesis
    by (simp add: s b value_at_def key_event_at_def value_event_at_def pair_event_at_def
        bucket_or_new_def new_Value_Map_def split: option.split)
qed

text \<open>
  C7. A bucket has, for every key, one slot per callback shape, and a slot holds at most
  one pointer. \<^verbatim>\<open>subscribe<T>(k, cb)\<close> puts \<open>cb\<close> into the slot of its shape, whatever
  was there, and leaves the slots of the other two shapes and all values as they were.
  After two value callbacks are subscribed in a row the slot holds the second, and a
  write calls the second and not the first.
\<close>

theorem subscribe_replaces:
  "(\<exists>inst'. subscribe_value T k cb (Some inst) = Inr inst'
      \<and> (\<forall>i j. value_event_at i j inst' =
                  (if i = templateToID T \<and> j = k then Some cb else value_event_at i j inst))
      \<and> (\<forall>i j. key_event_at i j inst' = key_event_at i j inst)
      \<and> (\<forall>i j. pair_event_at i j inst' = pair_event_at i j inst)
      \<and> (\<forall>i j. value_at i j inst' = value_at i j inst))
   \<and> (\<exists>inst'. subscribe_key T k cb (Some inst) = Inr inst'
      \<and> (\<forall>i j. key_event_at i j inst' =
                  (if i = templateToID T \<and> j = k then Some cb else key_event_at i j inst))
      \<and> (\<forall>i j. value_event_at i j inst' = value_event_at i j inst)
      \<and> (\<forall>i j. pair_event_at i j inst' = pair_event_at i j inst)
      \<and> (\<forall>i j. value_at i j inst' = value_at i j inst))
   \<and> (\<exists>inst'. subscribe_pair T k cb (Some inst) = Inr inst'
      \<and> (\<forall>i j. pair_event_at i j inst' =
                  (if i = templateToID T \<and> j = k then Some cb else pair_event_at i j inst))
      \<and> (\<forall>i j. key_event_at i j inst' = key_event_at i j inst)
      \<and> (\<forall>i j. value_event_at i j inst' = value_event_at i j inst)
      \<and> (\<forall>i j. value_at i j inst' = value_at i j inst))
   \<and> and_then (subscribe_value T k cb1 (Some inst))
        (\<lambda>s. map_sum id (value_event_at (templateToID T) k)
               (subscribe_value T k cb2 (Some s))) = Inr (Some cb2)
   \<and> (keeps_slots env (templateToID T) k \<longrightarrow>
        and_then (subscribe_value T k cb1 (Some inst))
          (\<lambda>s1. and_then (subscribe_value T k cb2 (Some s1))
             (\<lambda>s2. write_calls env T k v True (Some s2)))
        = Inr (key_call (templateToID T) k inst
               @ (if cb2 \<noteq> nullptr then [Value_Event cb2 v] else [])
               @ pair_call (templateToID T) k v inst))"
proof -
  let ?key = "templateToID T"
  obtain s1 where s1: "subscribe_value T k cb1 (Some inst) = Inr s1"
    and k1: "\<And>i j. key_event_at i j s1 = key_event_at i j inst"
    and p1: "\<And>i j. pair_event_at i j s1 = pair_event_at i j inst"
    using subscribe_value_slots [of T k cb1 inst] by blast
  obtain s2 where s2: "subscribe_value T k cb2 (Some s1) = Inr s2"
    and v2: "value_event_at ?key k s2 = Some cb2"
    and k2: "\<And>i j. key_event_at i j s2 = key_event_at i j s1"
    and p2: "\<And>i j. pair_event_at i j s2 = pair_event_at i j s1"
    using subscribe_value_slots [of T k cb2 s1] by auto
  have twice: "and_then (subscribe_value T k cb1 (Some inst))
        (\<lambda>s. map_sum id (value_event_at ?key k) (subscribe_value T k cb2 (Some s)))
      = Inr (Some cb2)"
    by (simp add: and_then_def s1 s2 v2)
  have calls: "and_then (subscribe_value T k cb1 (Some inst))
          (\<lambda>s1. and_then (subscribe_value T k cb2 (Some s1))
             (\<lambda>s2. write_calls env T k v True (Some s2)))
        = Inr (key_call ?key k inst @ (if cb2 \<noteq> nullptr then [Value_Event cb2 v] else [])
               @ pair_call ?key k v inst)"
    if "keeps_slots env ?key k"
    by (simp add: and_then_def s1 s2 write_calls_raise [OF that] fan_out_def key_call_def
        value_call_def pair_call_def v2 k2 k1 p2 p1)
  from twice calls subscribe_value_slots [of T k cb inst] subscribe_key_slots [of T k cb inst]
    subscribe_pair_slots [of T k cb inst]
  show ?thesis
    by blast
qed

theorem subscribe_replaces_witness:
  "and_then (subscribe_value int_type ''k'' 8 (Some key_subscribed))
     (\<lambda>s1. and_then (subscribe_value int_type ''k'' 9 (Some s1))
        (\<lambda>s2. write_calls no_effect int_type ''k'' 42 True (Some s2)))
   = Inr [Key_Event 7 ''k'', Value_Event 9 42]"
proof -
  from subscribe_replaces [where T = int_type and k = "''k''" and inst = key_subscribed
      and env = no_effect and ?cb1.0 = 8 and ?cb2.0 = 9 and v = 42]
  have "and_then (subscribe_value int_type ''k'' 8 (Some key_subscribed))
     (\<lambda>s1. and_then (subscribe_value int_type ''k'' 9 (Some s1))
        (\<lambda>s2. write_calls no_effect int_type ''k'' 42 True (Some s2)))
     = Inr (key_call (templateToID int_type) ''k'' key_subscribed
            @ (if (9::nat) \<noteq> nullptr then [Value_Event 9 42] else [])
            @ pair_call (templateToID int_type) ''k'' 42 key_subscribed)"
    by (simp add: keeps_slots_no_effect)
  then show ?thesis
    by (simp add: key_call_def pair_call_def key_event_at_def pair_event_at_def bucket_at_def
        templateToID_def int_type_def key_subscribed_def new_Value_Map_def nullptr_def)
qed

section \<open>Wiping\<close>

text \<open>A loop that calls one function on every bucket acts on each bucket on its own.\<close>

lemma map_of_each:
  "map_of (map (\<lambda>pair. (fst pair, f (snd pair))) xs) i = map_option f (map_of xs i)"
  by (induction xs) auto

lemma bucket_at_each:
  "bucket_at i (inst\<lparr>m_DataStorage :=
       map (\<lambda>pair. (fst pair, f (snd pair))) (m_DataStorage inst)\<rparr>)
     = map_option f (bucket_at i inst)"
  by (simp add: bucket_at_def map_of_each)

lemma wipeKey_bucket:
  "\<exists>inst'. wipeKey k (Some inst) = Inr inst'
     \<and> (\<forall>i. bucket_at i inst' = map_option (Value_Map_wipeKey k) (bucket_at i inst))"
  by (simp add: wipeKey_def bucket_at_each)

lemma wipeBoard_bucket:
  "\<exists>inst'. wipeBoard b (Some inst) = Inr inst'
     \<and> (\<forall>i. bucket_at i inst' =
           map_option (\<lambda>m. if b then Value_Map_clearAllEvents (Value_Map_wipeAll m)
                            else Value_Map_wipeAll m) (bucket_at i inst))"
  using bucket_at_each
    [where f = "\<lambda>m. if b then Value_Map_clearAllEvents (Value_Map_wipeAll m)
                        else Value_Map_wipeAll m" and inst = inst]
  by (simp add: wipeBoard_def)

lemma write_calls_unsubscribed:
  assumes "key_event_at (templateToID T) k inst = None"
    and "value_event_at (templateToID T) k inst = None"
    and "pair_event_at (templateToID T) k inst = None"
  shows "write_calls env T k v True (Some inst) = Inr []"
proof -
  let ?key = "templateToID T"
  obtain m where m: "bucket_at ?key (stored_state T k v inst) = Some m"
    by (simp add: bucket_at_stored_state)
  have "m_KeyEvents m k = None" and "m_ValueEvents m k = None" and "m_PairEvents m k = None"
    using key_event_at_stored_state [of ?key k T k v inst]
      value_event_at_stored_state [of ?key k T k v inst]
      pair_event_at_stored_state [of ?key k T k v inst] assms
    by (simp_all add: key_event_at_def value_event_at_def pair_event_at_def m)
  then show ?thesis
    by (simp add: write_calls_def write_unfold and_then_def raise_key_event_def
        raise_value_event_def raise_pair_event_def m)
qed

text \<open>
  C4, the untyped half. In every created registry \<^verbatim>\<open>wipeKey(k)\<close> returns and removes
  the value stored for \<open>k\<close> from every bucket; the values of the other keys, all
  callback slots and the set of buckets are as before. It does so by calling
  \<^verbatim>\<open>Value_Map::wipeKey\<close> on each bucket, which erases the entry of \<open>k\<close> from
  \<^verbatim>\<open>m_Values\<close> and touches no callback map. The typed half of C4 is about
  \<^verbatim>\<open>wipeTypeKey<T>\<close>, which has no instance.
\<close>

theorem wipeKey_every_bucket:
  "(\<exists>inst'. wipeKey k (Some inst) = Inr inst'
      \<and> (\<forall>i j. value_at i j inst' = (if j = k then None else value_at i j inst))
      \<and> (\<forall>i j. key_event_at i j inst' = key_event_at i j inst)
      \<and> (\<forall>i j. value_event_at i j inst' = value_event_at i j inst)
      \<and> (\<forall>i j. pair_event_at i j inst' = pair_event_at i j inst)
      \<and> (\<forall>i. (bucket_at i inst' = None) = (bucket_at i inst = None)))
   \<and> m_Values (Value_Map_wipeKey k m) = (m_Values m)(k := None)
   \<and> m_KeyEvents (Value_Map_wipeKey k m) = m_KeyEvents m
   \<and> m_ValueEvents (Value_Map_wipeKey k m) = m_ValueEvents m
   \<and> m_PairEvents (Value_Map_wipeKey k m) = m_PairEvents m"
proof -
  obtain inst' where s: "wipeKey k (Some inst) = Inr inst'"
    and b: "\<And>i. bucket_at i inst' = map_option (Value_Map_wipeKey k) (bucket_at i inst)"
    using wipeKey_bucket [of k inst] by blast
  show ?thesis
    by (simp add: s b value_at_def key_event_at_def value_event_at_def pair_event_at_def
        Value_Map_wipeKey_def split: option.split)
qed

text \<open>
  On the registry with an \<open>int_type\<close> and another bucket that both hold \<open>''k''\<close>,
  \<^verbatim>\<open>wipeKey("k")\<close> removes both values and keeps both key callbacks.
\<close>

lemma wipeKey_two_buckets:
  "map_sum id (\<lambda>s. (value_at 1 ''k'' s, value_at 2 ''k'' s, key_event_at 1 ''k'' s,
                     key_event_at 2 ''k'' s)) (wipeKey ''k'' (Some two_buckets))
     = Inr (None, None, Some 7, Some 8)"
  by (simp add: wipeKey_def Value_Map_wipeKey_def value_at_def key_event_at_def bucket_at_def
      two_buckets_def new_Value_Map_def)

text \<open>
  C8. In every created registry \<^verbatim>\<open>wipeBoard(false)\<close> returns and removes every value
  from every bucket while every callback slot stays as it was, so a later write raises
  the callbacks subscribed before; \<^verbatim>\<open>wipeBoard(true)\<close> also empties every callback slot,
  so a later write raises nothing. No bucket is removed. (What the later write raises is
  stated, for the first case, for callbacks that leave the slots of the written key
  alone.)
\<close>

theorem wipeBoard_flag:
  "(\<exists>inst'. wipeBoard False (Some inst) = Inr inst'
      \<and> (\<forall>i j. value_at i j inst' = None)
      \<and> (\<forall>i j. key_event_at i j inst' = key_event_at i j inst)
      \<and> (\<forall>i j. value_event_at i j inst' = value_event_at i j inst)
      \<and> (\<forall>i j. pair_event_at i j inst' = pair_event_at i j inst)
      \<and> (\<forall>i. (bucket_at i inst' = None) = (bucket_at i inst = None))
      \<and> (keeps_slots env (templateToID T) k \<longrightarrow>
           write_calls env T k v True (Some inst') = Inr (fan_out (templateToID T) k v inst)))
   \<and> (\<exists>inst'. wipeBoard True (Some inst) = Inr inst'
      \<and> (\<forall>i j. value_at i j inst' = None)
      \<and> (\<forall>i j. key_event_at i j inst' = None)
      \<and> (\<forall>i j. value_event_at i j inst' = None)
      \<and> (\<forall>i j. pair_event_at i j inst' = None)
      \<and> (\<forall>i. (bucket_at i inst' = None) = (bucket_at i inst = None))
      \<and> write_calls env T k v True (Some inst') = Inr [])"
proof -
  let ?key = "templateToID T"
  obtain s0 where s0: "wipeBoard False (Some inst) = Inr s0"
    and b0: "\<And>i. bucket_at i s0 = map_option Value_Map_wipeAll (bucket_at i inst)"
    using wipeBoard_bucket [of False inst] by auto
  have e0: "key_event_at i j s0 = key_event_at i j inst"
    "value_event_at i j s0 = value_event_at i j inst"
    "pair_event_at i j s0 = pair_event_at i j inst" "value_at i j s0 = None" for i j
    by (simp_all add: b0 value_at_def key_event_at_def value_event_at_def pair_event_at_def
        Value_Map_wipeAll_def split: option.split)
  have c0: "write_calls env T k v True (Some s0) = Inr (fan_out ?key k v inst)"
    if "keeps_slots env ?key k"
    by (simp add: write_calls_raise [OF that] fan_out_def key_call_def value_call_def
        pair_call_def e0)
  have first: "\<exists>inst'. wipeBoard False (Some inst) = Inr inst'
      \<and> (\<forall>i j. value_at i j inst' = None)
      \<and> (\<forall>i j. key_event_at i j inst' = key_event_at i j inst)
      \<and> (\<forall>i j. value_event_at i j inst' = value_event_at i j inst)
      \<and> (\<forall>i j. pair_event_at i j inst' = pair_event_at i j inst)
      \<and> (\<forall>i. (bucket_at i inst' = None) = (bucket_at i inst = None))
      \<and> (keeps_slots env ?key k \<longrightarrow>
           write_calls env T k v True (Some inst') = Inr (fan_out ?key k v inst))"
    using s0 e0 c0 by (simp add: b0)
  obtain s1 where s1: "wipeBoard True (Some inst) = Inr s1"
    and b1: "\<And>i. bucket_at i s1 =
        map_option (\<lambda>m. Value_Map_clearAllEvents (Value_Map_wipeAll m)) (bucket_at i inst)"
    using wipeBoard_bucket [of True inst] by auto
  have e1: "key_event_at i j s1 = None" "value_event_at i j s1 = None"
    "pair_event_at i j s1 = None" "value_at i j s1 = None" for i j
    by (simp_all add: b1 value_at_def key_event_at_def value_event_at_def pair_event_at_def
        Value_Map_wipeAll_def Value_Map_clearAllEvents_def split: option.split)
  have c1: "write_calls env T k v True (Some s1) = Inr []"
    by (rule write_calls_unsubscribed) (simp_all add: e1)
  have second: "\<exists>inst'. wipeBoard True (Some inst) = Inr inst'
      \<and> (\<forall>i j. value_at i j inst' = None)
      \<and> (\<forall>i j. key_event_at i j inst' = None)
      \<and> (\<forall>i j. value_event_at i j inst' = None)
      \<and> (\<forall>i j. pair_event_at i j inst' = None)
      \<and> (\<forall>i. (bucket_at i inst' = None) = (bucket_at i inst = None))
      \<and> write_calls env T k v True (Some inst') = Inr []"
    using s1 e1 c1 by (simp add: b1)
  from first second show ?thesis
    by (rule conjI)
qed

theorem wipeBoard_flag_witness:
  "and_then (wipeBoard False (Some all_subscribed))
     (\<lambda>s. write_calls no_effect int_type ''k'' 42 True (Some s))
     = Inr [Key_Event 7 ''k'', Value_Event 8 42, Pair_Event 9 ''k'' 42]
   \<and> and_then (wipeBoard True (Some all_subscribed))
       (\<lambda>s. write_calls no_effect int_type ''k'' 42 True (Some s)) = Inr []"
proof -
  have fan: "fan_out (templateToID int_type) ''k'' 42 all_subscribed
      = [Key_Event 7 ''k'', Value_Event 8 42, Pair_Event 9 ''k'' 42]"
    by (simp add: fan_out_def key_call_def value_call_def pair_call_def key_event_at_def
        value_event_at_def pair_event_at_def bucket_at_def templateToID_def int_type_def
        all_subscribed_def new_Value_Map_def nullptr_def)
  from wipeBoard_flag [where inst = all_subscribed and env = no_effect and T = int_type
      and k = "''k''" and v = 42]
  show ?thesis
    by (auto simp: and_then_def keeps_slots_no_effect fan)
qed

section \<open>Unsubscribing\<close>

text \<open>
  What \<^verbatim>\<open>Value_Map::unsubscribe\<close> does, by the key callback alone: all three guards
  test the iterator \<^verbatim>\<open>key\<close>. Without a key callback nothing is erased. With one, all
  three \<^verbatim>\<open>erase\<close> calls run, and the second or third is handed \<^verbatim>\<open>end()\<close> when that
  shape has no callback.
\<close>

lemma Value_Map_unsubscribe_eq:
  "Value_Map_unsubscribe k m =
     (if m_KeyEvents m k = None then Inr m
      else if m_ValueEvents m k = None \<or> m_PairEvents m k = None then Inl Erase_End
      else Inr (m\<lparr>m_KeyEvents := (m_KeyEvents m)(k := None),
                  m_ValueEvents := (m_ValueEvents m)(k := None),
                  m_PairEvents := (m_PairEvents m)(k := None)\<rparr>))"
  by (simp add: Value_Map_unsubscribe_def find_it_def erase_it_def Let_def)

lemma Value_Map_unsubscribe_outcome:
  "(\<exists>m'. Value_Map_unsubscribe k m = Inr m') \<or> Value_Map_unsubscribe k m = Inl Erase_End"
  by (simp add: Value_Map_unsubscribe_eq)

lemma unsubscribe_outcome:
  "(\<exists>inst'. unsubscribe T k (Some inst) = Inr inst') \<or> unsubscribe T k (Some inst) = Inl Erase_End"
proof -
  obtain inst1 where s: "supportType T inst = (templateToID T, inst1)"
    and b: "\<And>i. bucket_at i inst1 =
           (if i = templateToID T then Some (bucket_or_new i inst) else bucket_at i inst)"
    using supportType_view [of T inst] by blast
  from Value_Map_unsubscribe_outcome [of k "bucket_or_new (templateToID T) inst"]
  show ?thesis
    by (auto simp: unsubscribe_def s b)
qed

lemma unsubscribe_each_outcome:
  "(\<exists>st. unsubscribe_each k xs = Inr st) \<or> unsubscribe_each k xs = Inl Erase_End"
proof (induction xs)
  case Nil
  then show ?case by simp
next
  case (Cons pair xs)
  from Value_Map_unsubscribe_outcome [of k "snd pair"] Cons show ?case
    by auto
qed

lemma unsubscribeAll_outcome:
  "(\<exists>inst'. unsubscribeAll k (Some inst) = Inr inst') \<or> unsubscribeAll k (Some inst) = Inl Erase_End"
  using unsubscribe_each_outcome [of k "m_DataStorage inst"]
  by (auto simp: unsubscribeAll_def)

text \<open>
  Where all three shapes are subscribed, \<^verbatim>\<open>unsubscribe<T>(k)\<close> does what its comment
  says: it empties the three slots of \<open>k\<close> in the bucket of \<open>T\<close>.
\<close>

lemma unsubscribe_all_three:
  assumes "key_event_at (templateToID T) k inst \<noteq> None"
    and "value_event_at (templateToID T) k inst \<noteq> None"
    and "pair_event_at (templateToID T) k inst \<noteq> None"
  shows "\<exists>inst'. unsubscribe T k (Some inst) = Inr inst'
           \<and> key_event_at (templateToID T) k inst' = None
           \<and> value_event_at (templateToID T) k inst' = None
           \<and> pair_event_at (templateToID T) k inst' = None"
proof -
  obtain inst1 where s: "supportType T inst = (templateToID T, inst1)"
    and b: "\<And>i. bucket_at i inst1 =
           (if i = templateToID T then Some (bucket_or_new i inst) else bucket_at i inst)"
    using supportType_view [of T inst] by blast
  from assms show ?thesis
    by (auto simp: unsubscribe_def s b Value_Map_unsubscribe_eq bucket_at_set_bucket
        key_event_at_def value_event_at_def pair_event_at_def bucket_or_new_def
        split: option.splits)
qed

text \<open>
  C3 fails on the code. With only a value callback on \<open>''k''\<close> (no key callback),
  \<^verbatim>\<open>unsubscribe<int>("k")\<close> and \<^verbatim>\<open>unsubscribeAll("k")\<close> return and the value callback is
  still subscribed. With only a key callback, both stop at \<^verbatim>\<open>erase(end())\<close>.
\<close>

theorem unsubscribe_misses_callbacks:
  "map_sum id (value_event_at 1 ''k'') (unsubscribe int_type ''k'' (Some value_subscribed))
     = Inr (Some 8)
   \<and> map_sum id (value_event_at 1 ''k'') (unsubscribeAll ''k'' (Some value_subscribed))
     = Inr (Some 8)
   \<and> unsubscribe int_type ''k'' (Some key_subscribed) = Inl Erase_End
   \<and> unsubscribeAll ''k'' (Some key_subscribed) = Inl Erase_End"
  by (simp add: unsubscribe_def unsubscribeAll_def Value_Map_unsubscribe_eq supportType_def
      templateToID_def bucket_at_def set_bucket_def value_event_at_def int_type_def
      value_subscribed_def key_subscribed_def new_Value_Map_def Let_def)

section \<open>Which operations call subscribers\<close>

lemma read_returns: "\<exists>v inst'. read T k (Some inst) = Inr (v, inst')"
proof -
  obtain inst1 where s: "supportType T inst = (templateToID T, inst1)"
    and b: "\<And>i. bucket_at i inst1 =
           (if i = templateToID T then Some (bucket_or_new i inst) else bucket_at i inst)"
    using supportType_view [of T inst] by blast
  show ?thesis
    by (simp add: read_def s b split: prod.split)
qed

text \<open>
  C10. On a created registry, every operation other than a write with the callback flag
  set returns without a single call through a stored function pointer, and its outcome
  does not depend on the subscribers' code at all. The one way such an operation does
  not return is \<^verbatim>\<open>unsubscribe<T>\<close> or \<^verbatim>\<open>unsubscribeAll\<close> stopping at \<^verbatim>\<open>erase(end())\<close>,
  before which no subscriber was called either.
\<close>

theorem only_write_raises:
  assumes "\<not> raising req"
  shows "(case perform env req (Some inst) of
            Inl e \<Rightarrow> e = Erase_End \<and> unsubscribing req
          | Inr st \<Rightarrow> snd st = [])
         \<and> perform env req (Some inst) = perform env' req (Some inst)"
proof (cases req)
  case (Write T k v r)
  with assms show ?thesis
    by (simp add: write_unfold)
next
  case (Read T k)
  with read_returns [of T k inst] show ?thesis
    by (auto simp: silently_def)
next
  case (Wipe_Key k)
  with wipeKey_bucket [of k inst] show ?thesis
    by (auto simp: silently_def)
next
  case (Wipe_Board b)
  with wipeBoard_bucket [of b inst] show ?thesis
    by (auto simp: silently_def)
next
  case (Subscribe_Key T k f)
  with subscribe_key_bucket [of T k f inst] show ?thesis
    by (auto simp: silently_def)
next
  case (Subscribe_Value T k f)
  with subscribe_value_bucket [of T k f inst] show ?thesis
    by (auto simp: silently_def)
next
  case (Subscribe_Pair T k f)
  with subscribe_pair_bucket [of T k f inst] show ?thesis
    by (auto simp: silently_def)
next
  case (Unsubscribe T k)
  with unsubscribe_outcome [of T k inst] show ?thesis
    by (auto simp: silently_def)
next
  case (Unsubscribe_All k)
  with unsubscribeAll_outcome [of k inst] show ?thesis
    by (auto simp: silently_def)
qed

theorem only_write_raises_witness:
  "map_sum id snd (perform no_effect (Write int_type ''k'' 42 False) (Some all_subscribed))
     = Inr []
   \<and> perform no_effect (Write int_type ''k'' 42 False) (Some all_subscribed)
     = perform (callback_writes 7 int_type ''k'' 99) (Write int_type ''k'' 42 False)
         (Some all_subscribed)
   \<and> perform no_effect (Unsubscribe int_type ''k'') (Some key_subscribed) = Inl Erase_End"
proof -
  have quiet: "\<not> raising (Write int_type ''k'' (42::int) False)"
    by simp
  have stops: "perform no_effect (Unsubscribe int_type ''k'') (Some key_subscribed)
      = Inl Erase_End"
    by (simp add: silently_def unsubscribe_def Value_Map_unsubscribe_eq supportType_def
        templateToID_def bucket_at_def int_type_def key_subscribed_def new_Value_Map_def
        Let_def)
  from only_write_raises [OF quiet, of no_effect all_subscribed
      "callback_writes 7 int_type ''k'' 99"] stops
  show ?thesis
    by (auto split: sum.splits)
qed

end
